theory Spec2Isabelle
  imports
    Complex_Main
    "HOL-Library.Sublist"
    "HOL-Library.AList"
    "HOL-Library.Char_ord"
    "HOL-Library.List_Lexorder"
begin

section \<open>JavaScript strings\<close>

text \<open>
  A JavaScript string is a sequence of code units. The model uses \<^typ>\<open>string\<close>, so it
  covers the inputs whose code units are below 256; the white space and line terminator
  code units of ECMAScript in that range are listed below (the others, such as U+2028
  and U+FEFF, lie outside the type). \<open>\s\<close> in a regular expression, \<open>trim\<close> and
  the white space skipped by \<open>Number\<close> all use the same set.
\<close>

definition is_space :: "char \<Rightarrow> bool" where
  "is_space c \<longleftrightarrow>
     c \<in> set [CHR 0x09, CHR 0x0A, CHR 0x0B, CHR 0x0C, CHR 0x0D, CHR 0x20, CHR 0xA0]"

definition line_terminator :: "char \<Rightarrow> bool" where
  "line_terminator c \<longleftrightarrow> c = CHR 0x0A \<or> c = CHR 0x0D"

text \<open>A character range \<open>[lo-hi]\<close> of a regular expression.\<close>

definition in_range :: "char \<Rightarrow> char \<Rightarrow> char \<Rightarrow> bool" where
  "in_range lo hi c \<longleftrightarrow> of_char lo \<le> (of_char c :: nat) \<and> (of_char c :: nat) \<le> of_char hi"

definition is_digit :: "char \<Rightarrow> bool" where
  "is_digit c = in_range CHR ''0'' CHR ''9'' c"

definition trim :: "string \<Rightarrow> string" where
  "trim s = rev (dropWhile is_space (rev (dropWhile is_space s)))"

definition startsWith :: "string \<Rightarrow> string \<Rightarrow> bool" where
  "startsWith s p = prefix p s"

definition str_includes :: "string \<Rightarrow> string \<Rightarrow> bool" where
  "str_includes s p = sublist p s"

text \<open>\<open>s.replace(p, '')\<close> with a string pattern: the first occurrence of \<open>p\<close> is removed.\<close>

fun remove_first :: "string \<Rightarrow> string \<Rightarrow> string" where
  "remove_first p [] = []"
| "remove_first p (c # cs) =
     (if prefix p (c # cs) then drop (length p) (c # cs) else c # remove_first p cs)"

text \<open>\<open>s.split(sep)\<close> with a one-character separator; the empty string gives \<open>['']\<close>.\<close>

fun split_on :: "char \<Rightarrow> string \<Rightarrow> string list" where
  "split_on sep [] = [[]]"
| "split_on sep (c # cs) =
     (if c = sep then [] # split_on sep cs
      else (case split_on sep cs of [] \<Rightarrow> [[c]] | t # ts \<Rightarrow> (c # t) # ts))"

text \<open>
  \<open>s.split(/\s+/)\<close>: the pieces between the maximal runs of white space. A string that
  starts (ends) with white space has an empty first (last) piece.
\<close>

function split_ws :: "string \<Rightarrow> string list" where
  "split_ws s =
     (let tok = takeWhile (\<lambda>c. \<not> is_space c) s;
          rest = dropWhile (\<lambda>c. \<not> is_space c) s
      in if rest = [] then [tok] else tok # split_ws (dropWhile is_space rest))"
  by pat_completeness auto
termination
proof (relation "measure length")
  fix s :: string and tok rest
  assume rest: "rest = dropWhile (\<lambda>c. \<not> is_space c) s" and ne: "rest \<noteq> []"
  from rest ne have "is_space (hd rest)"
    using hd_dropWhile [of "\<lambda>c. \<not> is_space c" s] by simp
  with ne have "length (dropWhile is_space rest) < length rest"
    by (cases rest) (simp_all add: le_imp_less_Suc length_dropWhile_le)
  moreover have "length rest \<le> length s"
    by (simp add: rest length_dropWhile_le)
  ultimately show "(dropWhile is_space rest, s) \<in> measure length"
    by simp
qed simp

declare split_ws.simps [simp del]

section \<open>Numbers\<close>

text \<open>
  A number value is NaN, an infinity, or finite. \<open>Fin q\<close> stands for the double nearest
  to the rational \<open>q\<close>: the rounding of the mantissa is not modelled, its two effects on
  control flow and on the kind of value are (underflow to zero, overflow to infinity).
  Negative zero is not told apart from zero.
\<close>

datatype jsnum = NaN | PosInfinity | NegInfinity | Fin rat

definition round_to_double :: "rat \<Rightarrow> jsnum" where
  "round_to_double q =
     (if \<bar>q\<bar> \<le> 1 / 2 ^ 1075 then Fin 0
      else if 2 ^ 1024 - 2 ^ 970 \<le> \<bar>q\<bar> then (if q < 0 then NegInfinity else PosInfinity)
      else Fin q)"

fun negate :: "jsnum \<Rightarrow> jsnum" where
  "negate NaN = NaN"
| "negate PosInfinity = NegInfinity"
| "negate NegInfinity = PosInfinity"
| "negate (Fin q) = Fin (- q)"

text \<open>\<open>ToBoolean\<close> of a number: zero and NaN are falsy.\<close>

fun num_truthy :: "jsnum \<Rightarrow> bool" where
  "num_truthy NaN = False"
| "num_truthy (Fin q) = (q \<noteq> 0)"
| "num_truthy _ = True"

definition char_digit :: "char \<Rightarrow> nat option" where
  "char_digit c =
     (let n = (of_char c :: nat)
      in if 48 \<le> n \<and> n \<le> 57 then Some (n - 48)
         else if 97 \<le> n \<and> n \<le> 102 then Some (n - 87)
         else if 65 \<le> n \<and> n \<le> 70 then Some (n - 55)
         else None)"

definition is_digit_in :: "nat \<Rightarrow> char \<Rightarrow> bool" where
  "is_digit_in b c = (case char_digit c of Some d \<Rightarrow> d < b | None \<Rightarrow> False)"

definition digits_value :: "nat \<Rightarrow> string \<Rightarrow> nat" where
  "digits_value b ds =
     foldl (\<lambda>a c. b * a + (case char_digit c of Some d \<Rightarrow> d | None \<Rightarrow> 0)) 0 ds"

definition scale10 :: "nat \<Rightarrow> int \<Rightarrow> rat" where
  "scale10 m e = (if 0 \<le> e then of_nat m * 10 ^ nat e else of_nat m / 10 ^ nat (- e))"

text \<open>The exponent part of a decimal literal, or nothing: \<open>[eE][+-]?[0-9]+\<close>.\<close>

definition exponent_part :: "string \<Rightarrow> int option" where
  "exponent_part s =
     (case s of
        [] \<Rightarrow> Some 0
      | c # r \<Rightarrow>
          if c = CHR ''e'' \<or> c = CHR ''E'' then
            (let neg = (r \<noteq> [] \<and> hd r = CHR ''-'');
                 ds = (if r \<noteq> [] \<and> (hd r = CHR ''-'' \<or> hd r = CHR ''+'') then tl r else r)
             in if ds \<noteq> [] \<and> list_all is_digit ds
                then Some (if neg then - int (digits_value 10 ds) else int (digits_value 10 ds))
                else None)
          else None)"

definition unsigned_decimal :: "string \<Rightarrow> jsnum" where
  "unsigned_decimal s =
     (if s = ''Infinity'' then PosInfinity
      else
        let ip = takeWhile is_digit s;
            r1 = dropWhile is_digit s;
            dot = (r1 \<noteq> [] \<and> hd r1 = CHR ''.'');
            fp = (if dot then takeWhile is_digit (tl r1) else []);
            r2 = (if dot then dropWhile is_digit (tl r1) else r1)
        in if ip = [] \<and> fp = [] then NaN
           else (case exponent_part r2 of
                   None \<Rightarrow> NaN
                 | Some e \<Rightarrow>
                     round_to_double (scale10 (digits_value 10 (ip @ fp)) (e - int (length fp)))))"

definition decimal_literal :: "string \<Rightarrow> jsnum" where
  "decimal_literal s =
     (case s of
        [] \<Rightarrow> NaN
      | c # r \<Rightarrow>
          if c = CHR ''-'' then negate (unsigned_decimal r)
          else if c = CHR ''+'' then unsigned_decimal r
          else unsigned_decimal s)"

text \<open>Hexadecimal, octal and binary integer literals: \<open>0x1F\<close>, \<open>0o17\<close>, \<open>0b101\<close>.\<close>

definition non_decimal :: "string \<Rightarrow> jsnum option" where
  "non_decimal s =
     (case s of
        z # p # ds \<Rightarrow>
          (let b = (if p = CHR ''x'' \<or> p = CHR ''X'' then 16
                    else if p = CHR ''o'' \<or> p = CHR ''O'' then 8
                    else if p = CHR ''b'' \<or> p = CHR ''B'' then 2
                    else (0::nat))
           in if z = CHR ''0'' \<and> b \<noteq> 0 \<and> ds \<noteq> [] \<and> list_all (is_digit_in b) ds
              then Some (round_to_double (of_nat (digits_value b ds)))
              else None)
      | _ \<Rightarrow> None)"

text \<open>\<open>Number(s)\<close> for a string \<open>s\<close>: surrounding white space is skipped, the empty
  string is 0, a numeric literal is its value, anything else is NaN.\<close>

definition Number :: "string \<Rightarrow> jsnum" where
  "Number s =
     (let t = trim s
      in if t = [] then Fin 0
         else (case non_decimal t of Some n \<Rightarrow> n | None \<Rightarrow> decimal_literal t))"

section \<open>Regular expressions\<close>

text \<open>
  \<open>RegExp.prototype.test\<close> on a pattern anchored at both ends decides whether the whole
  string belongs to the language of the pattern. Patterns are terms of \<open>rexp\<close>;
  \<open>regex_test\<close> matches by derivatives.
\<close>

datatype rexp =
    Fail
  | Eps
  | Cls "char \<Rightarrow> bool"
  | Alt rexp rexp
  | Seq rexp rexp
  | Rep rexp

fun nullable :: "rexp \<Rightarrow> bool" where
  "nullable Fail = False"
| "nullable Eps = True"
| "nullable (Cls P) = False"
| "nullable (Alt r s) = (nullable r \<or> nullable s)"
| "nullable (Seq r s) = (nullable r \<and> nullable s)"
| "nullable (Rep r) = True"

fun mk_seq :: "rexp \<Rightarrow> rexp \<Rightarrow> rexp" where
  "mk_seq Fail s = Fail"
| "mk_seq Eps s = s"
| "mk_seq r s = Seq r s"

fun mk_alt :: "rexp \<Rightarrow> rexp \<Rightarrow> rexp" where
  "mk_alt Fail s = s"
| "mk_alt r Fail = r"
| "mk_alt r s = Alt r s"

fun deriv :: "char \<Rightarrow> rexp \<Rightarrow> rexp" where
  "deriv c Fail = Fail"
| "deriv c Eps = Fail"
| "deriv c (Cls P) = (if P c then Eps else Fail)"
| "deriv c (Alt r s) = mk_alt (deriv c r) (deriv c s)"
| "deriv c (Seq r s) =
     (if nullable r then mk_alt (mk_seq (deriv c r) s) (deriv c s) else mk_seq (deriv c r) s)"
| "deriv c (Rep r) = mk_seq (deriv c r) (Rep r)"

definition regex_test :: "rexp \<Rightarrow> string \<Rightarrow> bool" where
  "regex_test r s = nullable (foldl (\<lambda>r c. deriv c r) r s)"

definition opt :: "rexp \<Rightarrow> rexp" where
  "opt r = Alt Eps r"

definition many1 :: "rexp \<Rightarrow> rexp" where
  "many1 r = Seq r (Rep r)"

definition chr :: "char \<Rightarrow> rexp" where
  "chr c = Cls (\<lambda>x. x = c)"

definition seqs :: "rexp list \<Rightarrow> rexp" where
  "seqs rs = foldr Seq rs Eps"

section \<open>The format validator\<close>

definition ident_start :: "char \<Rightarrow> bool" where
  "ident_start c \<longleftrightarrow>
     in_range CHR ''a'' CHR ''z'' c \<or> in_range CHR ''A'' CHR ''Z'' c \<or> c \<in> set ''_:''"

definition ident_char :: "char \<Rightarrow> bool" where
  "ident_char c \<longleftrightarrow> ident_start c \<or> is_digit c"

text \<open>
  \<^verbatim>\<open>/^[a-zA-Z_:][a-zA-Z0-9_:]*({.*})?\s+-?\d+(\.\d+)?([eE][+-]?\d+)?$/\<close>;
  the dot matches every character but a line terminator.
\<close>

definition metric_line_regex :: rexp where
  "metric_line_regex =
     seqs [Cls ident_start, Rep (Cls ident_char),
           opt (seqs [chr CHR ''{'', Rep (Cls (\<lambda>c. \<not> line_terminator c)), chr CHR ''}'']),
           many1 (Cls is_space),
           opt (chr CHR ''-''), many1 (Cls is_digit),
           opt (seqs [chr CHR ''.'', many1 (Cls is_digit)]),
           opt (seqs [Cls (\<lambda>c. c = CHR ''e'' \<or> c = CHR ''E''),
                      opt (Cls (\<lambda>c. c = CHR ''+'' \<or> c = CHR ''-'')),
                      many1 (Cls is_digit)])]"

definition isValidPrometheusMetrics :: "string \<Rightarrow> bool" where
  "isValidPrometheusMetrics data =
     list_ex (\<lambda>line. startsWith line ''#'' \<or> regex_test metric_line_regex (trim line))
       (split_on CHR 0x0A (trim data))"

section \<open>The parsed model\<close>

text \<open>
  The objects built by \<open>parsePrometheusMetrics\<close>. An object's own properties are an
  association list in insertion order (\<open>AList.update\<close> overwrites in place and appends a
  new key; JavaScript enumerates keys that are array indices first, and nothing below
  depends on the order). \<open>None\<close> in a label value, in \<open>le\<close>, \<open>hsum\<close> and \<open>hcount\<close> is
  \<open>undefined\<close>. The field \<open>val\<close> is the source's \<open>value\<close>, \<open>hsum\<close> and
  \<open>hcount\<close> are the accumulator's \<open>sum\<close> and \<open>count\<close>.
\<close>

type_synonym labels = "(string \<times> string option) list"

record sample =
  val :: jsnum
  labels :: labels

record bucket =
  le :: "string option"
  count :: jsnum

record histogram =
  buckets :: "bucket list"
  hsum :: "jsnum option"
  hcount :: "jsnum option"

text \<open>
  \<open>gauges\<close> and \<open>counters\<close> are written with \<open>obj[name] = sample\<close>. For the key
  \<open>__proto__\<close> this assignment runs the setter inherited from \<open>Object.prototype\<close>: it
  replaces the object's prototype and creates no own property. \<open>proto\<close> records that
  (\<open>None\<close>: still \<open>Object.prototype\<close>).
\<close>

record samples =
  props :: "(string \<times> sample) list"
  proto :: "sample option"

record metrics =
  gauges :: samples
  counters :: samples
  histograms :: "(string \<times> histogram) list"

definition empty_metrics :: metrics where
  "empty_metrics =
     \<lparr>gauges = \<lparr>props = [], proto = None\<rparr>, counters = \<lparr>props = [], proto = None\<rparr>,
      histograms = []\<rparr>"

text \<open>
  \<open>metrics.histograms[key]\<close> is read, and a read also finds what the object inherits
  from \<open>Object.prototype\<close>: its built-in methods, the accessor \<open>__proto__\<close> (which
  yields \<open>Object.prototype\<close> itself), and the properties \<open>sum\<close> and \<open>count\<close> once
  an assignment through \<open>__proto__\<close> has put them there. Those two are global state of
  the running script; \<open>realm\<close> holds them.
\<close>

record realm =
  proto_sum :: "jsnum option"
  proto_count :: "jsnum option"

definition pristine :: realm where
  "pristine = \<lparr>proto_sum = None, proto_count = None\<rparr>"

datatype error = TypeError

datatype hval =
    Undefined
  | Accumulator histogram
  | BuiltinFunction
  | ObjectPrototype
  | Primitive jsnum

definition object_prototype_functions :: "string list" where
  "object_prototype_functions =
     [''constructor'', ''__defineGetter__'', ''__defineSetter__'', ''hasOwnProperty'',
      ''__lookupGetter__'', ''__lookupSetter__'', ''isPrototypeOf'', ''propertyIsEnumerable'',
      ''toString'', ''valueOf'', ''toLocaleString'']"

definition inherited :: "realm \<Rightarrow> string \<Rightarrow> hval" where
  "inherited r k =
     (if k \<in> set object_prototype_functions then BuiltinFunction
      else if k = ''__proto__'' then ObjectPrototype
      else if k = ''sum'' then (case proto_sum r of None \<Rightarrow> Undefined | Some n \<Rightarrow> Primitive n)
      else if k = ''count'' then (case proto_count r of None \<Rightarrow> Undefined | Some n \<Rightarrow> Primitive n)
      else Undefined)"

definition histograms_get :: "realm \<Rightarrow> (string \<times> histogram) list \<Rightarrow> string \<Rightarrow> hval" where
  "histograms_get r h k = (case map_of h k of Some a \<Rightarrow> Accumulator a | None \<Rightarrow> inherited r k)"

fun truthy :: "hval \<Rightarrow> bool" where
  "truthy Undefined = False"
| "truthy (Primitive n) = num_truthy n"
| "truthy _ = True"

section \<open>The metrics parser\<close>

text \<open>
  \<open>nameLabels.match(/([^[{]+)(?:{([^}]+)})?/)\<close>. The pattern is not anchored: the
  match starts at the first character that is neither \<open>[\<close> nor \<open>{\<close> and the first
  group takes the longest run of such characters; there is no match when the string has
  no such character. The second group takes part only when the run is followed by
  \<open>{\<close>, at least one character other than \<open>}\<close>, and \<open>}\<close>.
\<close>

definition name_char :: "char \<Rightarrow> bool" where
  "name_char c \<longleftrightarrow> c \<noteq> CHR ''['' \<and> c \<noteq> CHR ''{''"

definition label_group :: "string \<Rightarrow> string option" where
  "label_group rest =
     (case rest of
        [] \<Rightarrow> None
      | c # r \<Rightarrow>
          (let inner = takeWhile (\<lambda>x. x \<noteq> CHR ''}'') r;
               after = dropWhile (\<lambda>x. x \<noteq> CHR ''}'') r
           in if c = CHR ''{'' \<and> inner \<noteq> [] \<and> after \<noteq> [] then Some inner else None))"

definition match_name_labels :: "string \<Rightarrow> (string \<times> string option) option" where
  "match_name_labels s =
     (let s1 = dropWhile (\<lambda>c. \<not> name_char c) s
      in if s1 = [] then None
         else Some (takeWhile name_char s1, label_group (dropWhile name_char s1)))"

text \<open>
  \<open>Object.fromEntries(labelsStr.split(',').map(l => l.split('=').map(s =>
  s.replace(/"/g, ''))))\<close>: the first two pieces of every entry are its key and its
  value, a missing value is \<open>undefined\<close>, and a later entry overwrites an earlier one
  with the same key.
\<close>

definition unquote :: "string \<Rightarrow> string" where
  "unquote s = filter (\<lambda>c. c \<noteq> CHR 0x22) s"

definition label_entry :: "string \<Rightarrow> string \<times> string option" where
  "label_entry l =
     (case map unquote (split_on CHR ''='' l) of
        [] \<Rightarrow> ([], None)
      | [k] \<Rightarrow> (k, None)
      | k # v # _ \<Rightarrow> (k, Some v))"

definition fromEntries :: "(string \<times> string option) list \<Rightarrow> labels" where
  "fromEntries es = foldl (\<lambda>obj (k, v). AList.update k v obj) [] es"

definition parse_labels :: "string \<Rightarrow> labels" where
  "parse_labels labelsStr = fromEntries (map label_entry (split_on CHR '','' labelsStr))"

text \<open>\<open>labels.le\<close>: \<open>undefined\<close> when there is no such label.\<close>

definition labels_le :: "labels \<Rightarrow> string option" where
  "labels_le ls = (case map_of ls ''le'' of None \<Rightarrow> None | Some v \<Rightarrow> v)"

text \<open>
  Lines 60 to 69: the fields of a line, or \<open>None\<close> where the loop body runs
  \<open>continue\<close> (a comment line, a missing first or second token, no match).
\<close>

definition line_fields :: "string \<Rightarrow> (string \<times> labels \<times> string) option" where
  "line_fields line =
     (if startsWith line ''#'' then None
      else
        (case split_ws line of
           nameLabels # value # _ \<Rightarrow>
             if nameLabels = [] \<or> value = [] then None
             else
               (case match_name_labels nameLabels of
                  None \<Rightarrow> None
                | Some (name, labelsStr) \<Rightarrow>
                    Some (name,
                          (case labelsStr of None \<Rightarrow> [] | Some ls \<Rightarrow> parse_labels ls),
                          value))
         | _ \<Rightarrow> None))"

text \<open>\<open>name.replace(/_(sum|count)$/, '')\<close>\<close>

definition strip_sum_count :: "string \<Rightarrow> string" where
  "strip_sum_count name =
     (if suffix ''_sum'' name then take (length name - 4) name
      else if suffix ''_count'' name then take (length name - 6) name
      else name)"

text \<open>
  \<open>if (!metrics.histograms[baseName]) metrics.histograms[baseName] = { buckets: [] }\<close>
\<close>

definition ensure_histogram ::
  "realm \<Rightarrow> (string \<times> histogram) list \<Rightarrow> string \<Rightarrow> (string \<times> histogram) list" where
  "ensure_histogram r h k =
     (if truthy (histograms_get r h k) then h
      else AList.update k \<lparr>buckets = [], hsum = None, hcount = None\<rparr> h)"

text \<open>
  \<open>metrics.histograms[baseName].buckets.push(b)\<close>: what the read yields has a
  \<open>buckets\<close> array only when it is an accumulator; on anything else \<open>buckets\<close> is
  \<open>undefined\<close> and the call of \<open>push\<close> throws.
\<close>

definition push_bucket ::
  "realm \<Rightarrow> (string \<times> histogram) list \<Rightarrow> string \<Rightarrow> bucket \<Rightarrow> error + (string \<times> histogram) list"
  where
  "push_bucket r h k b =
     (case histograms_get r h k of
        Accumulator a \<Rightarrow> Inr (AList.update k (a\<lparr>buckets := buckets a @ [b]\<rparr>) h)
      | _ \<Rightarrow> Inl TypeError)"

text \<open>
  \<open>metrics.histograms[baseName][field] = n\<close>. On \<open>Object.prototype\<close> the assignment
  adds the property for every object of the script; on a built-in function it adds a
  property that nothing reads; on a number it does nothing (the script is not in strict
  mode).
\<close>

datatype field = SumField | CountField

definition set_field ::
  "field \<Rightarrow> jsnum \<Rightarrow> string \<Rightarrow> (string \<times> histogram) list \<Rightarrow> realm
     \<Rightarrow> (error + (string \<times> histogram) list) \<times> realm" where
  "set_field f n k h r =
     (case histograms_get r h k of
        Accumulator a \<Rightarrow>
          (Inr (AList.update k
                 (case f of SumField \<Rightarrow> a\<lparr>hsum := Some n\<rparr> | CountField \<Rightarrow> a\<lparr>hcount := Some n\<rparr>) h),
           r)
      | ObjectPrototype \<Rightarrow>
          (Inr h, (case f of SumField \<Rightarrow> r\<lparr>proto_sum := Some n\<rparr>
                           | CountField \<Rightarrow> r\<lparr>proto_count := Some n\<rparr>))
      | BuiltinFunction \<Rightarrow> (Inr h, r)
      | Primitive _ \<Rightarrow> (Inr h, r)
      | Undefined \<Rightarrow> (Inl TypeError, r))"

text \<open>\<open>obj[name] = sample\<close> on \<open>gauges\<close> or \<open>counters\<close>.\<close>

definition samples_set :: "samples \<Rightarrow> string \<Rightarrow> sample \<Rightarrow> samples" where
  "samples_set obj k v =
     (if k = ''__proto__'' then obj\<lparr>proto := Some v\<rparr>
      else obj\<lparr>props := AList.update k v (props obj)\<rparr>)"

text \<open>Lines 72 to 85: the dispatch on the metric name.\<close>

definition process_sample ::
  "string \<Rightarrow> labels \<Rightarrow> string \<Rightarrow> metrics \<Rightarrow> realm \<Rightarrow> (error + metrics) \<times> realm" where
  "process_sample name lbls value m r =
     (if str_includes name ''_bucket'' then
        (let baseName = remove_first ''_bucket'' name;
             h = ensure_histogram r (histograms m) baseName
         in (case push_bucket r h baseName \<lparr>le = labels_le lbls, count = Number value\<rparr> of
               Inl e \<Rightarrow> (Inl e, r)
             | Inr h' \<Rightarrow> (Inr (m\<lparr>histograms := h'\<rparr>), r)))
      else if str_includes name ''_sum'' \<or> str_includes name ''_count'' then
        (let baseName = strip_sum_count name;
             h = ensure_histogram r (histograms m) baseName
         in (case set_field (if str_includes name ''_sum'' then SumField else CountField)
                    (Number value) baseName h r of
               (Inl e, r') \<Rightarrow> (Inl e, r')
             | (Inr h', r') \<Rightarrow> (Inr (m\<lparr>histograms := h'\<rparr>), r')))
      else if str_includes name ''total'' \<or> str_includes name ''errors'' then
        (Inr (m\<lparr>counters := samples_set (counters m) name \<lparr>val = Number value, labels = lbls\<rparr>\<rparr>), r)
      else
        (Inr (m\<lparr>gauges := samples_set (gauges m) name \<lparr>val = Number value, labels = lbls\<rparr>\<rparr>), r))"

definition parse_line :: "string \<Rightarrow> metrics \<Rightarrow> realm \<Rightarrow> (error + metrics) \<times> realm" where
  "parse_line line m r =
     (case line_fields line of
        None \<Rightarrow> (Inr m, r)
      | Some (name, lbls, value) \<Rightarrow> process_sample name lbls value m r)"

text \<open>The loop over the lines; an exception ends it.\<close>

fun parse_lines :: "string list \<Rightarrow> metrics \<Rightarrow> realm \<Rightarrow> (error + metrics) \<times> realm" where
  "parse_lines [] m r = (Inr m, r)"
| "parse_lines (line # rest) m r =
     (case parse_line line m r of
        (Inl e, r') \<Rightarrow> (Inl e, r')
      | (Inr m', r') \<Rightarrow> parse_lines rest m' r')"

definition parsePrometheusMetrics :: "string \<Rightarrow> realm \<Rightarrow> (error + metrics) \<times> realm" where
  "parsePrometheusMetrics data r = parse_lines (split_on CHR 0x0A data) empty_metrics r"

section \<open>The snapshot store\<close>

text \<open>
  \<open>METRICS_STORAGE\<close> is a key-value store; its bindings are an association list with
  one entry per key. A stored value is the envelope \<open>{data, timestamp}\<close> (its JSON text
  is not modelled). \<open>list()\<close> yields the stored keys (all of them: the page limit of
  the backend, 1000 keys, is never reached from the empty store). \<open>Date.now()\<close> is a natural
  number, written in decimal in the key \<open>metrics_<timestamp>\<close>.
\<close>

record envelope =
  data :: string
  timestamp :: nat

type_synonym store = "(string \<times> envelope) list"

datatype kv_op = Delete string | Put string envelope

fun apply_op :: "store \<Rightarrow> kv_op \<Rightarrow> store" where
  "apply_op st (Delete k) = AList.delete k st"
| "apply_op st (Put k v) = AList.update k v st"

definition run_ops :: "store \<Rightarrow> kv_op list \<Rightarrow> store" where
  "run_ops st ops = foldl apply_op st ops"

fun decimal :: "nat \<Rightarrow> string" where
  "decimal n =
     (if n < 10 then [char_of (48 + n)] else decimal (n div 10) @ [char_of (48 + n mod 10)])"

declare decimal.simps [simp del]

definition snapshot_key :: "nat \<Rightarrow> string" where
  "snapshot_key ts = ''metrics_'' @ decimal ts"

text \<open>
  Lines 23 to 28 of \<open>handleRequest\<close>, the operation the specification calls \<open>save\<close>:
  the store operations it issues, in order, for the store it finds. \<open>sort()\<close> without
  a comparison function orders strings by their code units.
\<close>

definition save_ops :: "store \<Rightarrow> nat \<Rightarrow> string \<Rightarrow> kv_op list" where
  "save_ops st ts text =
     (let keys = rev (sort (map fst st))
      in (if 2 \<le> length keys then [Delete (keys ! 1)] else [])
         @ [Put (snapshot_key ts) \<lparr>data = text, timestamp = ts\<rparr>])"

definition save :: "store \<Rightarrow> nat \<Rightarrow> string \<Rightarrow> store" where
  "save st ts text = run_ops st (save_ops st ts text)"


section \<open>The request handler\<close>







section \<open>What the patterns mean\<close>

text \<open>
  The language of a pattern, for the proofs: the strings on which \<open>test\<close> succeeds.
\<close>

definition conc :: "string set \<Rightarrow> string set \<Rightarrow> string set" where
  "conc A B = {u @ v | u v. u \<in> A \<and> v \<in> B}"

inductive_set kleene :: "string set \<Rightarrow> string set" for A :: "string set" where
  kleene_nil: "[] \<in> kleene A"
| kleene_app: "u \<in> A \<Longrightarrow> v \<in> kleene A \<Longrightarrow> u @ v \<in> kleene A"

fun lang :: "rexp \<Rightarrow> string set" where
  "lang Fail = {}"
| "lang Eps = {[]}"
| "lang (Cls P) = {[c] | c. P c}"
| "lang (Alt r s) = lang r \<union> lang s"
| "lang (Seq r s) = conc (lang r) (lang s)"
| "lang (Rep r) = kleene (lang r)"

text \<open>
  The line pattern in the words of the specification: an identifier
  \<open>[a-zA-Z_:][a-zA-Z0-9_:]*\<close>, optionally followed by a brace-delimited label block,
  then white space, then a decimal or scientific-notation number.
\<close>

definition spec_identifier :: "string \<Rightarrow> bool" where
  "spec_identifier s \<longleftrightarrow> (\<exists>c cs. s = c # cs \<and> ident_start c \<and> list_all ident_char cs)"

definition spec_label_block :: "string \<Rightarrow> bool" where
  "spec_label_block s \<longleftrightarrow>
     (\<exists>inner. s = CHR ''{'' # inner @ ''}'' \<and> list_all (\<lambda>c. \<not> line_terminator c) inner)"

definition spec_digits :: "string \<Rightarrow> bool" where
  "spec_digits s \<longleftrightarrow> s \<noteq> [] \<and> list_all is_digit s"

definition spec_number :: "string \<Rightarrow> bool" where
  "spec_number s \<longleftrightarrow>
     (\<exists>sign ip frac ex.
        s = sign @ ip @ frac @ ex
        \<and> sign \<in> {[], ''-''}
        \<and> spec_digits ip
        \<and> (frac = [] \<or> (\<exists>fd. frac = CHR ''.'' # fd \<and> spec_digits fd))
        \<and> (ex = [] \<or> (\<exists>e sg ed. ex = e # sg @ ed \<and> e \<in> set ''eE'' \<and> sg \<in> {[], ''+'', ''-''}
                                  \<and> spec_digits ed)))"

definition spec_metric_line :: "string \<Rightarrow> bool" where
  "spec_metric_line s \<longleftrightarrow>
     (\<exists>ident block ws num.
        s = ident @ block @ ws @ num
        \<and> spec_identifier ident
        \<and> (block = [] \<or> spec_label_block block)
        \<and> ws \<noteq> [] \<and> list_all is_space ws
        \<and> spec_number num)"

text \<open>
  The validator in the words of the specification: split into lines; succeed if any
  line starts with \<open>#\<close> or matches the pattern.
\<close>

definition spec_isValid :: "string \<Rightarrow> bool" where
  "spec_isValid text = list_ex (\<lambda>line. startsWith line ''#'' \<or> spec_metric_line line) (split_on CHR 0x0A text)"

section \<open>Notions used in the statements\<close>

text \<open>The accumulator under a base name, a fresh one when there is none.\<close>

definition accumulator_for :: "(string \<times> histogram) list \<Rightarrow> string \<Rightarrow> histogram" where
  "accumulator_for h k =
     (case map_of h k of Some a \<Rightarrow> a | None \<Rightarrow> \<lparr>buckets = [], hsum = None, hcount = None\<rparr>)"

text \<open>
  A base name is plain when a read of \<open>metrics.histograms[k]\<close> finds an entry of the
  mapping or nothing at all, that is, never something inherited from
  \<open>Object.prototype\<close>.
\<close>

definition plain_key :: "realm \<Rightarrow> (string \<times> histogram) list \<Rightarrow> string \<Rightarrow> bool" where
  "plain_key r h k \<longleftrightarrow> (\<exists>a. map_of h k = Some a) \<or> inherited r k = Undefined"

text \<open>The own keys of a mapping.\<close>

definition keys :: "(string \<times> 'v) list \<Rightarrow> string set" where
  "keys al = fst ` set al"

text \<open>
  The two tests on a metric name that decide where a sample goes, and the property of a
  model that every own key of \<open>counters\<close> and \<open>gauges\<close> got there by them.
\<close>

definition histogram_marked :: "string \<Rightarrow> bool" where
  "histogram_marked k \<longleftrightarrow>
     str_includes k ''_bucket'' \<or> str_includes k ''_sum'' \<or> str_includes k ''_count''"

definition counter_named :: "string \<Rightarrow> bool" where
  "counter_named k \<longleftrightarrow> str_includes k ''total'' \<or> str_includes k ''errors''"

definition keys_classified :: "metrics \<Rightarrow> bool" where
  "keys_classified m \<longleftrightarrow>
     (\<forall>k \<in> keys (props (counters m)). counter_named k \<and> \<not> histogram_marked k)
     \<and> (\<forall>k \<in> keys (props (gauges m)). \<not> counter_named k \<and> \<not> histogram_marked k)"


section \<open>Evaluation on concrete inputs\<close>

lemmas Number_eval =
  Number_def trim_def is_space_def non_decimal_def decimal_literal_def unsigned_decimal_def
  is_digit_def in_range_def exponent_part_def round_to_double_def scale10_def digits_value_def
  char_digit_def is_digit_in_def

lemmas dispatch_eval =
  process_sample_def str_includes_def sublist_code(3) suffix_to_prefix ensure_histogram_def
  histograms_get_def inherited_def object_prototype_functions_def push_bucket_def
  set_field_def strip_sum_count_def labels_le_def samples_set_def

lemma Number_1: "Number ''1'' = Fin 1"
  by (simp add: Number_eval)

lemma Number_2: "Number ''2'' = Fin 2"
  by (simp add: Number_eval)

lemma Number_3: "Number ''3'' = Fin 3"
  by (simp add: Number_eval)

lemma Number_4: "Number ''4'' = Fin 4"
  by (simp add: Number_eval)

lemma Number_9: "Number ''9'' = Fin 9"
  by (simp add: Number_eval)

lemma Number_10: "Number ''10'' = Fin 10"
  by (simp add: Number_eval)

lemma Number_non_numeric: "Number ''abc'' = NaN"
  by (simp add: Number_eval)

lemma fields_foo_bucket:
  "line_fields ''foo_bucket{le=\"0.5\"} 3'' = Some (''foo_bucket'', [(''le'', Some ''0.5'')], ''3'')"
  by code_simp

lemma fields_foo_sum: "line_fields ''foo_sum 10'' = Some (''foo_sum'', [], ''10'')"
  by code_simp

lemma fields_foo_count: "line_fields ''foo_count 4'' = Some (''foo_count'', [], ''4'')"
  by code_simp

lemma fields_foo: "line_fields ''foo 1'' = Some (''foo'', [], ''1'')"
  by code_simp

lemma fields_constructor_bucket:
  "line_fields ''constructor_bucket 1'' = Some (''constructor_bucket'', [], ''1'')"
  by code_simp

section \<open>Matching by derivatives decides the language\<close>

lemma conc_iff: "w \<in> conc A B \<longleftrightarrow> (\<exists>u v. w = u @ v \<and> u \<in> A \<and> v \<in> B)"
  by (auto simp: conc_def)

lemma conc_assoc: "conc (conc A B) C = conc A (conc B C)"
  unfolding conc_def set_eq_iff mem_Collect_eq
  by (metis append.assoc)

lemma conc_unit_left: "conc {[]} A = A"
  by (auto simp: conc_def)

lemma conc_unit_right: "conc A {[]} = A"
  by (auto simp: conc_def)

lemma conc_empty_left: "conc {} A = {}"
  by (auto simp: conc_def)

lemma conc_union_left: "conc (A \<union> B) C = conc A C \<union> conc B C"
  by (auto simp: conc_def)

lemma lang_mk_seq: "lang (mk_seq r s) = conc (lang r) (lang s)"
  by (cases r) (simp_all add: conc_unit_left conc_empty_left)

lemma lang_mk_alt: "lang (mk_alt r s) = lang r \<union> lang s"
  by (induction r s rule: mk_alt.induct) simp_all

lemma nullable_iff: "nullable r \<longleftrightarrow> [] \<in> lang r"
  by (induction r) (auto simp: conc_iff intro: kleene.kleene_nil)

lemma kleene_Cons:
  "c # w \<in> kleene A \<longleftrightarrow> w \<in> conc {u. c # u \<in> A} (kleene A)"
proof
  assume "c # w \<in> kleene A"
  then show "w \<in> conc {u. c # u \<in> A} (kleene A)"
  proof (induction "c # w" rule: kleene.induct)
    case (kleene_app u v)
    show ?case
    proof (cases u)
      case Nil
      with kleene_app show ?thesis by simp
    next
      case (Cons a u')
      with kleene_app(1,2,4) have w: "w = u' @ v" and u': "u' \<in> {u. c # u \<in> A}"
        and v: "v \<in> kleene A"
        by simp_all
      from u' v have "u' @ v \<in> conc {u. c # u \<in> A} (kleene A)"
        by (auto simp: conc_def)
      with w show ?thesis by simp
    qed
  qed
next
  assume "w \<in> conc {u. c # u \<in> A} (kleene A)"
  then obtain u v where "w = u @ v" "c # u \<in> A" "v \<in> kleene A"
    by (auto simp: conc_iff)
  then show "c # w \<in> kleene A"
    using kleene.kleene_app [of "c # u" A v] by simp
qed

lemma concI: "u \<in> A \<Longrightarrow> v \<in> B \<Longrightarrow> u @ v \<in> conc A B"
  by (auto simp: conc_def)

lemma conc_Cons:
  "c # w \<in> conc A B \<longleftrightarrow> [] \<in> A \<and> c # w \<in> B \<or> w \<in> conc {u. c # u \<in> A} B"
proof
  assume "c # w \<in> conc A B"
  then obtain u v where uv: "c # w = u @ v" "u \<in> A" "v \<in> B"
    by (auto simp: conc_iff)
  show "[] \<in> A \<and> c # w \<in> B \<or> w \<in> conc {u. c # u \<in> A} B"
  proof (cases u)
    case Nil
    with uv show ?thesis by simp
  next
    case (Cons a u')
    with uv have w: "w = u' @ v" and u': "u' \<in> {u. c # u \<in> A}" by simp_all
    from u' uv(3) have "u' @ v \<in> conc {u. c # u \<in> A} B" by (rule concI)
    with w show ?thesis by simp
  qed
next
  assume "[] \<in> A \<and> c # w \<in> B \<or> w \<in> conc {u. c # u \<in> A} B"
  then show "c # w \<in> conc A B"
  proof
    assume "[] \<in> A \<and> c # w \<in> B"
    then show ?thesis using concI [of "[]" A "c # w" B] by simp
  next
    assume "w \<in> conc {u. c # u \<in> A} B"
    then obtain u v where "w = u @ v" "c # u \<in> A" "v \<in> B"
      by (auto simp: conc_iff)
    then show ?thesis using concI [of "c # u" A v B] by simp
  qed
qed

lemma lang_deriv: "lang (deriv c r) = {w. c # w \<in> lang r}"
proof (induction r)
  case (Cls P)
  show ?case by auto
next
  case (Alt r s)
  then show ?case by (auto simp: lang_mk_alt)
next
  case (Seq r s)
  have d: "lang (deriv c (Seq r s)) =
      (if [] \<in> lang r then conc {u. c # u \<in> lang r} (lang s) \<union> {w. c # w \<in> lang s}
       else conc {u. c # u \<in> lang r} (lang s))"
    using Seq by (simp add: lang_mk_alt lang_mk_seq nullable_iff)
  have "w \<in> lang (deriv c (Seq r s)) \<longleftrightarrow> c # w \<in> lang (Seq r s)" for w
    unfolding d by (simp add: conc_Cons disj_commute)
  then show ?case by (simp add: set_eq_iff)
next
  case (Rep r)
  have "w \<in> lang (deriv c (Rep r)) \<longleftrightarrow> c # w \<in> lang (Rep r)" for w
    using Rep by (simp add: lang_mk_seq kleene_Cons)
  then show ?case by (simp add: set_eq_iff)
qed simp_all

lemma regex_test_iff: "regex_test r s \<longleftrightarrow> s \<in> lang r"
  unfolding regex_test_def
  by (induction s arbitrary: r) (simp_all add: nullable_iff lang_deriv)

section \<open>The language of the line pattern\<close>

lemma conc_Collect:
  "w \<in> conc {s. P s} {s. Q s} \<longleftrightarrow> (\<exists>u v. w = u @ v \<and> P u \<and> Q v)"
  by (simp add: conc_iff)

lemma kleene_Cls: "kleene {[c] | c. P c} = {w. list_all P w}"
proof (intro set_eqI iffI)
  fix w assume "w \<in> kleene {[c] | c. P c}"
  then show "w \<in> {w. list_all P w}"
    by (induction rule: kleene.induct) auto
next
  fix w assume "w \<in> {w. list_all P w}"
  then have "list_all P w" by simp
  then show "w \<in> kleene {[c] | c. P c}"
  proof (induction w)
    case Nil
    show ?case by (rule kleene.kleene_nil)
  next
    case (Cons c w)
    then have "[c] \<in> {[c] | c. P c}" and "w \<in> kleene {[c] | c. P c}" by simp_all
    then have "[c] @ w \<in> kleene {[c] | c. P c}" by (rule kleene.kleene_app)
    then show ?case by simp
  qed
qed

lemma conc_Cls: "w \<in> conc {[c] | c. P c} B \<longleftrightarrow> (\<exists>c v. w = c # v \<and> P c \<and> v \<in> B)"
proof
  assume "w \<in> conc {[c] | c. P c} B"
  then show "\<exists>c v. w = c # v \<and> P c \<and> v \<in> B"
    by (auto simp: conc_def)
next
  assume "\<exists>c v. w = c # v \<and> P c \<and> v \<in> B"
  then obtain c v where w: "w = c # v" and "P c" "v \<in> B" by blast
  then have "[c] \<in> {[c] | c. P c}" by blast
  from this \<open>v \<in> B\<close> have "[c] @ v \<in> conc {[c] | c. P c} B" by (rule concI)
  with w show "w \<in> conc {[c] | c. P c} B" by simp
qed

lemma conc_single: "w \<in> conc {[c]} B \<longleftrightarrow> (\<exists>v. w = c # v \<and> v \<in> B)"
  using conc_Cls [of w "\<lambda>x. x = c" B] by simp

lemma conc4:
  "w \<in> conc A (conc B (conc C D)) \<longleftrightarrow>
     (\<exists>a b c d. w = a @ b @ c @ d \<and> a \<in> A \<and> b \<in> B \<and> c \<in> C \<and> d \<in> D)"
  unfolding conc_def by blast

lemma conc_opt: "w \<in> conc (insert [] A) B \<longleftrightarrow> w \<in> B \<or> w \<in> conc A B"
  by (auto simp: conc_def)

lemma lang_Rep_Cls: "lang (Rep (Cls P)) = {w. list_all P w}"
  by (simp add: kleene_Cls)

lemma lang_chr: "lang (chr c) = {[c]}"
  by (auto simp: chr_def)

lemma lang_opt: "lang (opt r) = insert [] (lang r)"
  by (simp add: opt_def)

lemma lang_many1_Cls: "lang (many1 (Cls P)) = {w. w \<noteq> [] \<and> list_all P w}"
proof -
  have "w \<in> conc {[c] | c. P c} {w. list_all P w} \<longleftrightarrow> w \<noteq> [] \<and> list_all P w" for w
    by (cases w) (simp_all add: conc_Cls)
  then show ?thesis
    by (simp add: many1_def kleene_Cls set_eq_iff)
qed

lemma lang_seqs_Nil: "lang (seqs []) = {[]}"
  by (simp add: seqs_def)

lemma lang_seqs_Cons: "lang (seqs (r # rs)) = conc (lang r) (lang (seqs rs))"
  by (simp add: seqs_def)

lemma lang_digits: "lang (many1 (Cls is_digit)) = {s. spec_digits s}"
  by (simp add: lang_many1_Cls spec_digits_def)

lemma lang_identifier:
  "conc (lang (Cls ident_start)) (lang (Rep (Cls ident_char))) = {s. spec_identifier s}"
  by (simp add: set_eq_iff conc_Cls kleene_Cls spec_identifier_def)

lemma lang_label_block:
  "lang (seqs [chr CHR ''{'', Rep (Cls (\<lambda>c. \<not> line_terminator c)), chr CHR ''}''])
     = {s. spec_label_block s}"
proof -
  have "w \<in> conc {v. list_all (\<lambda>c. \<not> line_terminator c) v} {''}''}
      \<longleftrightarrow> (\<exists>inner. w = inner @ ''}'' \<and> list_all (\<lambda>c. \<not> line_terminator c) inner)" for w
    by (auto simp: conc_def)
  then show ?thesis
    by (simp add: set_eq_iff lang_seqs_Cons lang_seqs_Nil lang_chr kleene_Cls conc_single
        conc_unit_right spec_label_block_def) blast
qed

lemma lang_fraction:
  "lang (seqs [chr CHR ''.'', many1 (Cls is_digit)])
     = {s. \<exists>fd. s = CHR ''.'' # fd \<and> spec_digits fd}"
  by (simp add: set_eq_iff lang_seqs_Cons lang_seqs_Nil lang_chr lang_digits conc_single
      conc_unit_right)

lemma lang_exponent:
  "lang (seqs [Cls (\<lambda>c. c = CHR ''e'' \<or> c = CHR ''E''),
               opt (Cls (\<lambda>c. c = CHR ''+'' \<or> c = CHR ''-'')), many1 (Cls is_digit)])
     = {s. \<exists>e sg ed. s = e # sg @ ed \<and> e \<in> set ''eE'' \<and> sg \<in> {[], ''+'', ''-''} \<and> spec_digits ed}"
proof -
  have "w \<in> conc (insert [] {[c] | c. c = CHR ''+'' \<or> c = CHR ''-''}) {s. spec_digits s}
      \<longleftrightarrow> (\<exists>sg ed. w = sg @ ed \<and> sg \<in> {[], ''+'', ''-''} \<and> spec_digits ed)" for w
    by (auto simp: conc_def)
  then show ?thesis
    by (simp add: set_eq_iff lang_seqs_Cons lang_seqs_Nil lang_opt lang_digits conc_Cls
        conc_unit_right) blast
qed

lemma lang_number_shape:
  "lang (seqs [opt (chr m), d, opt f, opt e])
     = conc {[], [m]} (conc (lang d) (conc (insert [] (lang f)) (insert [] (lang e))))"
  by (simp add: lang_seqs_Cons lang_seqs_Nil lang_opt lang_chr conc_unit_right)

lemma lang_number:
  "lang (seqs [opt (chr CHR ''-''), many1 (Cls is_digit),
               opt (seqs [chr CHR ''.'', many1 (Cls is_digit)]),
               opt (seqs [Cls (\<lambda>c. c = CHR ''e'' \<or> c = CHR ''E''),
                          opt (Cls (\<lambda>c. c = CHR ''+'' \<or> c = CHR ''-'')),
                          many1 (Cls is_digit)])])
     = {s. spec_number s}"
  unfolding lang_number_shape lang_fraction lang_exponent lang_digits
  by (simp add: set_eq_iff conc4 spec_number_def)

lemma lang_line_shape:
  "lang (seqs [a, b, opt c, d, n1, n2, n3, n4])
     = conc (conc (lang a) (lang b))
         (conc (insert [] (lang c)) (conc (lang d) (lang (seqs [n1, n2, n3, n4]))))"
  by (simp add: lang_seqs_Cons lang_opt conc_assoc)

lemma lang_metric_line: "lang metric_line_regex = {s. spec_metric_line s}"
  unfolding metric_line_regex_def lang_line_shape lang_identifier lang_label_block
    lang_many1_Cls lang_number
  by (simp add: set_eq_iff conc4 spec_metric_line_def)

lemma regex_test_metric_line: "regex_test metric_line_regex s \<longleftrightarrow> spec_metric_line s"
  by (simp add: regex_test_iff lang_metric_line)

section \<open>The dispatch on the metric name\<close>

lemma update_update_same: "AList.update k v (AList.update k w al) = AList.update k v al"
  by (induction al) auto

lemma map_of_None_update_new:
  "map_of al k = None \<Longrightarrow> map_of (AList.update k v al) k = Some v"
  by (simp add: update_conv')

lemma inherited_not_accumulator: "inherited r k \<noteq> Accumulator a"
  by (simp add: inherited_def split: option.splits)

text \<open>The bucket branch on a base name that is an entry or that nothing defines.\<close>

lemma push_after_ensure:
  assumes "plain_key r h k"
  shows "push_bucket r (ensure_histogram r h k) k b =
           Inr (AList.update k
                  ((accumulator_for h k)\<lparr>buckets := buckets (accumulator_for h k) @ [b]\<rparr>) h)"
proof (cases "map_of h k")
  case None
  with assms have "histograms_get r h k = Undefined"
    by (simp add: histograms_get_def plain_key_def)
  with None show ?thesis
    by (simp add: ensure_histogram_def push_bucket_def histograms_get_def update_conv'
        update_update_same accumulator_for_def)
next
  case (Some a)
  then show ?thesis
    by (simp add: ensure_histogram_def push_bucket_def histograms_get_def accumulator_for_def)
qed

lemma set_field_after_ensure:
  assumes "plain_key r h k"
  shows "set_field f n k (ensure_histogram r h k) r =
           (Inr (AList.update k
                  (case f of
                     SumField \<Rightarrow> (accumulator_for h k)\<lparr>hsum := Some n\<rparr>
                   | CountField \<Rightarrow> (accumulator_for h k)\<lparr>hcount := Some n\<rparr>) h),
            r)"
proof (cases "map_of h k")
  case None
  with assms have "histograms_get r h k = Undefined"
    by (simp add: histograms_get_def plain_key_def)
  with None show ?thesis
    by (cases f)
      (simp_all add: ensure_histogram_def set_field_def histograms_get_def update_conv'
        update_update_same accumulator_for_def)
next
  case (Some a)
  then show ?thesis
    by (cases f)
      (simp_all add: ensure_histogram_def set_field_def histograms_get_def accumulator_for_def)
qed

text \<open>
  C1, as the code has it. A processed line is a bucket line exactly when its name
  contains \<open>_bucket\<close> (anywhere, not only at the end): the first occurrence of
  \<open>_bucket\<close> is removed to give the base name and
  \<open>{le: labels['le'], count: Number(value)}\<close> is appended to the bucket sequence of
  that histogram, created first when absent. Otherwise it is a sum/count line exactly
  when its name contains \<open>_sum\<close> or \<open>_count\<close>: a trailing \<open>_sum\<close> or
  \<open>_count\<close> is stripped and the field \<open>sum\<close> (when the name contains \<open>_sum\<close>)
  or else \<open>count\<close> of that histogram is set, the entry created first when absent. A
  line of neither kind leaves the histograms as they are. The two histogram cases are
  stated for a plain base name.
\<close>

theorem histogram_line_dispatch:
  assumes "line_fields line = Some (name, lbls, value)"
  shows
    "(str_includes name ''_bucket'' \<and> plain_key r (histograms m) (remove_first ''_bucket'' name) \<longrightarrow>
        parse_line line m r =
          (Inr (m\<lparr>histograms :=
                  AList.update (remove_first ''_bucket'' name)
                    ((accumulator_for (histograms m) (remove_first ''_bucket'' name))
                       \<lparr>buckets := buckets (accumulator_for (histograms m) (remove_first ''_bucket'' name))
                                     @ [\<lparr>le = labels_le lbls, count = Number value\<rparr>]\<rparr>)
                    (histograms m)\<rparr>), r))
     \<and> (\<not> str_includes name ''_bucket'' \<and> str_includes name ''_sum''
          \<and> plain_key r (histograms m) (strip_sum_count name) \<longrightarrow>
        parse_line line m r =
          (Inr (m\<lparr>histograms :=
                  AList.update (strip_sum_count name)
                    ((accumulator_for (histograms m) (strip_sum_count name))\<lparr>hsum := Some (Number value)\<rparr>)
                    (histograms m)\<rparr>), r))
     \<and> (\<not> str_includes name ''_bucket'' \<and> \<not> str_includes name ''_sum''
          \<and> str_includes name ''_count'' \<and> plain_key r (histograms m) (strip_sum_count name) \<longrightarrow>
        parse_line line m r =
          (Inr (m\<lparr>histograms :=
                  AList.update (strip_sum_count name)
                    ((accumulator_for (histograms m) (strip_sum_count name))\<lparr>hcount := Some (Number value)\<rparr>)
                    (histograms m)\<rparr>), r))
     \<and> (\<not> str_includes name ''_bucket'' \<and> \<not> str_includes name ''_sum''
          \<and> \<not> str_includes name ''_count'' \<longrightarrow>
        (\<exists>m'. parse_line line m r = (Inr m', r) \<and> histograms m' = histograms m))"
proof (intro conjI impI)
  assume "str_includes name ''_bucket'' \<and> plain_key r (histograms m) (remove_first ''_bucket'' name)"
  then show "parse_line line m r =
          (Inr (m\<lparr>histograms :=
                  AList.update (remove_first ''_bucket'' name)
                    ((accumulator_for (histograms m) (remove_first ''_bucket'' name))
                       \<lparr>buckets := buckets (accumulator_for (histograms m) (remove_first ''_bucket'' name))
                                     @ [\<lparr>le = labels_le lbls, count = Number value\<rparr>]\<rparr>)
                    (histograms m)\<rparr>), r)"
    using assms by (simp add: parse_line_def process_sample_def Let_def push_after_ensure)
next
  assume "\<not> str_includes name ''_bucket'' \<and> str_includes name ''_sum''
          \<and> plain_key r (histograms m) (strip_sum_count name)"
  then show "parse_line line m r =
          (Inr (m\<lparr>histograms :=
                  AList.update (strip_sum_count name)
                    ((accumulator_for (histograms m) (strip_sum_count name))\<lparr>hsum := Some (Number value)\<rparr>)
                    (histograms m)\<rparr>), r)"
    using assms by (simp add: parse_line_def process_sample_def Let_def set_field_after_ensure)
next
  assume "\<not> str_includes name ''_bucket'' \<and> \<not> str_includes name ''_sum''
          \<and> str_includes name ''_count'' \<and> plain_key r (histograms m) (strip_sum_count name)"
  then show "parse_line line m r =
          (Inr (m\<lparr>histograms :=
                  AList.update (strip_sum_count name)
                    ((accumulator_for (histograms m) (strip_sum_count name))\<lparr>hcount := Some (Number value)\<rparr>)
                    (histograms m)\<rparr>), r)"
    using assms by (simp add: parse_line_def process_sample_def Let_def set_field_after_ensure)
next
  assume "\<not> str_includes name ''_bucket'' \<and> \<not> str_includes name ''_sum''
          \<and> \<not> str_includes name ''_count''"
  then show "\<exists>m'. parse_line line m r = (Inr m', r) \<and> histograms m' = histograms m"
    using assms by (simp add: parse_line_def process_sample_def)
qed

lemma plain_foo: "plain_key r h ''foo''"
  by (simp add: plain_key_def inherited_def object_prototype_functions_def)

text \<open>
  The four cases at the lines \<open>foo_bucket{le="0.5"} 3\<close>, \<open>foo_sum 10\<close>,
  \<open>foo_count 4\<close> and \<open>foo 1\<close>.
\<close>

theorem histogram_line_dispatch_witness:
  "parse_line ''foo_bucket{le=\"0.5\"} 3'' empty_metrics pristine =
     (Inr (empty_metrics\<lparr>histograms :=
        [(''foo'', \<lparr>buckets = [\<lparr>le = Some ''0.5'', count = Fin 3\<rparr>], hsum = None, hcount = None\<rparr>)]\<rparr>),
      pristine)
   \<and> parse_line ''foo_sum 10'' empty_metrics pristine =
     (Inr (empty_metrics\<lparr>histograms :=
        [(''foo'', \<lparr>buckets = [], hsum = Some (Fin 10), hcount = None\<rparr>)]\<rparr>), pristine)
   \<and> parse_line ''foo_count 4'' empty_metrics pristine =
     (Inr (empty_metrics\<lparr>histograms :=
        [(''foo'', \<lparr>buckets = [], hsum = None, hcount = Some (Fin 4)\<rparr>)]\<rparr>), pristine)
   \<and> histograms (case parse_line ''foo 1'' empty_metrics pristine of (Inr m', _) \<Rightarrow> m') = []"
proof -
  have b: "str_includes ''foo_bucket'' ''_bucket''" "remove_first ''_bucket'' ''foo_bucket'' = ''foo''"
    by code_simp+
  have s: "\<not> str_includes ''foo_sum'' ''_bucket''" "str_includes ''foo_sum'' ''_sum''"
      "strip_sum_count ''foo_sum'' = ''foo''"
    by code_simp+
  have c: "\<not> str_includes ''foo_count'' ''_bucket''" "\<not> str_includes ''foo_count'' ''_sum''"
      "str_includes ''foo_count'' ''_count''" "strip_sum_count ''foo_count'' = ''foo''"
    by code_simp+
  have g: "\<not> str_includes ''foo'' ''_bucket''" "\<not> str_includes ''foo'' ''_sum''"
      "\<not> str_includes ''foo'' ''_count''"
    by code_simp+
  have e: "histograms empty_metrics = []" "accumulator_for [] ''foo'' = \<lparr>buckets = [], hsum = None, hcount = None\<rparr>"
    by (simp_all add: empty_metrics_def accumulator_for_def)
  show ?thesis
    using histogram_line_dispatch [OF fields_foo_bucket, of pristine empty_metrics]
      histogram_line_dispatch [OF fields_foo_sum, of pristine empty_metrics]
      histogram_line_dispatch [OF fields_foo_count, of pristine empty_metrics]
      histogram_line_dispatch [OF fields_foo, of pristine empty_metrics]
    by (auto simp: b s c g e plain_foo labels_le_def Number_3 Number_10 Number_4)
qed

text \<open>
  C1 as stated fails: the name \<open>foo_bucket_x\<close> does not end with \<open>_bucket\<close>, and
  the line is handled as a bucket line of the histogram \<open>foo_x\<close>.
\<close>

theorem bucket_dispatch_counterexample:
  "line_fields ''foo_bucket_x 9'' = Some (''foo_bucket_x'', [], ''9'')
   \<and> \<not> suffix ''_bucket'' ''foo_bucket_x''
   \<and> parsePrometheusMetrics ''foo_bucket_x 9'' pristine =
       (Inr (empty_metrics\<lparr>histograms :=
          [(''foo_x'', \<lparr>buckets = [\<lparr>le = None, count = Fin 9\<rparr>], hsum = None, hcount = None\<rparr>)]\<rparr>),
        pristine)"
proof -
  have f: "line_fields ''foo_bucket_x 9'' = Some (''foo_bucket_x'', [], ''9'')" by code_simp
  have s: "\<not> suffix ''_bucket'' ''foo_bucket_x''" by code_simp
  have p: "parsePrometheusMetrics ''foo_bucket_x 9'' pristine =
       (Inr (empty_metrics\<lparr>histograms :=
          [(''foo_x'', \<lparr>buckets = [\<lparr>le = None, count = Fin 9\<rparr>], hsum = None, hcount = None\<rparr>)]\<rparr>),
        pristine)"
    by (simp add: parsePrometheusMetrics_def parse_line_def f dispatch_eval empty_metrics_def Number_9)
  from f s p show ?thesis by blast
qed

section \<open>An exception in the parser\<close>

lemma get_after_ensure:
  "histograms_get r (ensure_histogram r h k) k =
     (if truthy (histograms_get r h k) then histograms_get r h k
      else Accumulator \<lparr>buckets = [], hsum = None, hcount = None\<rparr>)"
  by (simp add: ensure_histogram_def histograms_get_def update_conv')

lemma set_field_after_ensure_total:
  "\<exists>h'. fst (set_field f n k (ensure_histogram r h k) r) = Inr h'"
proof (cases "truthy (histograms_get r h k)")
  case True
  then have "histograms_get r (ensure_histogram r h k) k \<noteq> Undefined"
    by (auto simp: get_after_ensure)
  then show ?thesis
    by (cases "histograms_get r (ensure_histogram r h k) k") (simp_all add: set_field_def)
next
  case False
  then show ?thesis
    by (simp add: set_field_def get_after_ensure)
qed

text \<open>The only exception of the loop body: a bucket line whose base name is not an
  entry and reads as something truthy inherited from \<open>Object.prototype\<close>.\<close>

lemma parse_line_throws_iff:
  "(\<exists>e. fst (parse_line line m r) = Inl e) \<longleftrightarrow>
     (\<exists>name lbls v. line_fields line = Some (name, lbls, v) \<and> str_includes name ''_bucket''
        \<and> map_of (histograms m) (remove_first ''_bucket'' name) = None
        \<and> truthy (inherited r (remove_first ''_bucket'' name)))"
proof (cases "line_fields line")
  case None
  then show ?thesis by (simp add: parse_line_def)
next
  case (Some f)
  obtain name lbls v where f: "f = (name, lbls, v)" by (cases f)
  show ?thesis
  proof (cases "str_includes name ''_bucket''")
    case True
    let ?k = "remove_first ''_bucket'' name"
    have p: "(\<exists>e. push_bucket r (ensure_histogram r (histograms m) ?k) ?k b = Inl e) \<longleftrightarrow>
        truthy (histograms_get r (histograms m) ?k)
        \<and> (\<forall>a. histograms_get r (histograms m) ?k \<noteq> Accumulator a)" for b
      by (cases "histograms_get r (histograms m) ?k")
        (simp_all add: push_bucket_def get_after_ensure)
    have "truthy (histograms_get r (histograms m) ?k)
        \<and> (\<forall>a. histograms_get r (histograms m) ?k \<noteq> Accumulator a) \<longleftrightarrow>
        map_of (histograms m) ?k = None \<and> truthy (inherited r ?k)"
      by (cases "map_of (histograms m) ?k")
        (simp_all add: histograms_get_def inherited_not_accumulator)
    with p have "(\<exists>e. push_bucket r (ensure_histogram r (histograms m) ?k) ?k b = Inl e) \<longleftrightarrow>
        map_of (histograms m) ?k = None \<and> truthy (inherited r ?k)" for b
      by simp
    then have q: "(\<exists>e. push_bucket r (ensure_histogram r (histograms m) ?k) ?k
          \<lparr>le = labels_le lbls, count = Number v\<rparr> = Inl e) \<longleftrightarrow>
        map_of (histograms m) ?k = None \<and> truthy (inherited r ?k)" .
    have "(\<exists>e. fst (parse_line line m r) = Inl e) \<longleftrightarrow>
        (\<exists>e. push_bucket r (ensure_histogram r (histograms m) ?k) ?k
          \<lparr>le = labels_le lbls, count = Number v\<rparr> = Inl e)"
      using Some f True
      by (cases "push_bucket r (ensure_histogram r (histograms m) ?k) ?k
          \<lparr>le = labels_le lbls, count = Number v\<rparr>")
        (simp_all add: parse_line_def process_sample_def Let_def)
    with q Some f True show ?thesis by simp
  next
    case False
    show ?thesis
    proof (cases "str_includes name ''_sum'' \<or> str_includes name ''_count''")
      case sc: True
      obtain res r' where sf: "set_field (if str_includes name ''_sum'' then SumField else CountField)
          (Number v) (strip_sum_count name)
          (ensure_histogram r (histograms m) (strip_sum_count name)) r = (res, r')"
        by (cases "set_field (if str_includes name ''_sum'' then SumField else CountField)
          (Number v) (strip_sum_count name)
          (ensure_histogram r (histograms m) (strip_sum_count name)) r")
      with set_field_after_ensure_total
        [of "if str_includes name ''_sum'' then SumField else CountField" "Number v"
          "strip_sum_count name" r "histograms m"]
      obtain h' where "res = Inr h'" by auto
      with sf Some f False sc show ?thesis
        by (auto simp: parse_line_def process_sample_def Let_def)
    next
      case nsc: False
      with Some f False show ?thesis
        by (auto simp: parse_line_def process_sample_def)
    qed
  qed
qed

text \<open>
  C7. The parser is meant never to raise an error. It does on a line whose histogram
  base name is a property that every object inherits: for \<open>constructor_bucket 1\<close> the
  read of \<open>metrics.histograms['constructor']\<close> finds the inherited \<open>constructor\<close>
  function, no entry is created, \<open>buckets\<close> is \<open>undefined\<close> on the function and the
  call of \<open>push\<close> throws a TypeError. The validator accepts this input.
\<close>

theorem parse_throws_on_inherited_name:
  "parsePrometheusMetrics ''constructor_bucket 1'' pristine = (Inl TypeError, pristine)
   \<and> isValidPrometheusMetrics ''constructor_bucket 1''"
proof
  show "parsePrometheusMetrics ''constructor_bucket 1'' pristine = (Inl TypeError, pristine)"
    by (simp add: parsePrometheusMetrics_def parse_line_def fields_constructor_bucket
        dispatch_eval empty_metrics_def)
  show "isValidPrometheusMetrics ''constructor_bucket 1''"
    by code_simp
qed

section \<open>Lines the parser skips\<close>

lemma not_space_hash: "\<not> is_space CHR ''#''"
  by (simp add: is_space_def)

lemma line_fields_leading_space:
  assumes "is_space c"
  shows "line_fields (c # cs) = None"
proof -
  from assms have "c \<noteq> CHR ''#''" using not_space_hash by blast
  then have h: "\<not> startsWith (c # cs) ''#''" by (simp add: startsWith_def)
  from assms have "split_ws (c # cs) = [[]] \<or> (\<exists>ts. split_ws (c # cs) = [] # ts)"
    by (subst split_ws.simps) simp
  then show ?thesis
    using h by (auto simp: line_fields_def split: list.splits)
qed

text \<open>
  C10. A line that begins with a white space character is skipped by the parser: its
  first token is empty. The validator trims a line before matching it, so the one-line
  input \<open>" foo 1"\<close> is valid and yet parses to the empty model.
\<close>

theorem leading_whitespace_line_skipped:
  "(is_space c \<longrightarrow> line_fields (c # cs) = None \<and> parse_line (c # cs) m r = (Inr m, r))
   \<and> isValidPrometheusMetrics '' foo 1''
   \<and> parsePrometheusMetrics '' foo 1'' r = (Inr empty_metrics, r)"
proof (intro conjI impI)
  assume "is_space c"
  then show "line_fields (c # cs) = None" by (rule line_fields_leading_space)
  then show "parse_line (c # cs) m r = (Inr m, r)" by (simp add: parse_line_def)
next
  show "isValidPrometheusMetrics '' foo 1''" by code_simp
next
  have "is_space CHR '' ''" by (simp add: is_space_def)
  then have "line_fields '' foo 1'' = None" by (rule line_fields_leading_space)
  then show "parsePrometheusMetrics '' foo 1'' r = (Inr empty_metrics, r)"
    by (simp add: parsePrometheusMetrics_def parse_line_def)
qed

text \<open>
  The line \<open>" foo 1"\<close> is skipped although \<open>"foo 1"\<close> has both fields.
\<close>

theorem leading_whitespace_line_skipped_witness:
  "is_space CHR '' '' \<and> line_fields ''foo 1'' = Some (''foo'', [], ''1'')
   \<and> line_fields '' foo 1'' = None
   \<and> parse_line '' foo 1'' empty_metrics pristine = (Inr empty_metrics, pristine)"
proof -
  have s: "is_space CHR '' ''" by (simp add: is_space_def)
  with leading_whitespace_line_skipped [of "CHR '' ''" "''foo 1''" empty_metrics pristine]
  show ?thesis by (simp add: fields_foo)
qed

section \<open>Rejected uploads\<close>




section \<open>Counters and gauges\<close>

lemma fields_requests_total: "line_fields ''requests_total 1'' = Some (''requests_total'', [], ''1'')"
  by code_simp

lemma fields_request_errors: "line_fields ''request_errors 1'' = Some (''request_errors'', [], ''1'')"
  by code_simp

lemma fields_ha_connections: "line_fields ''ha_connections 2'' = Some (''ha_connections'', [], ''2'')"
  by code_simp

lemma fields_foo_bucket_1: "line_fields ''foo_bucket 1'' = Some (''foo_bucket'', [], ''1'')"
  by code_simp

lemma fields_foo_2: "line_fields ''foo 2'' = Some (''foo'', [], ''2'')"
  by code_simp

lemma fields_http_count_total:
  "line_fields ''http_count_total 1'' = Some (''http_count_total'', [], ''1'')"
  by code_simp

lemmas parse_eval = parsePrometheusMetrics_def parse_line_def dispatch_eval empty_metrics_def

text \<open>
  C2, as the code has it. A processed line whose name contains none of \<open>_bucket\<close>,
  \<open>_sum\<close> and \<open>_count\<close> is stored in \<open>counters\<close> exactly when the name
  contains \<open>total\<close> or \<open>errors\<close>, and in \<open>gauges\<close> otherwise. The sample is
  stored under the full name and replaces what was there; the other keys keep their
  values (for every name but \<open>__proto__\<close>). \<open>requests_total\<close> and
  \<open>request_errors\<close> become counters, \<open>ha_connections\<close> a gauge.
\<close>

theorem sample_line_dispatch:
  assumes "line_fields line = Some (name, lbls, value)"
    and "\<not> str_includes name ''_bucket''"
    and "\<not> str_includes name ''_sum''"
    and "\<not> str_includes name ''_count''"
  shows
    "(str_includes name ''total'' \<or> str_includes name ''errors'' \<longrightarrow>
        parse_line line m r =
          (Inr (m\<lparr>counters := samples_set (counters m) name \<lparr>val = Number value, labels = lbls\<rparr>\<rparr>), r))
     \<and> (\<not> (str_includes name ''total'' \<or> str_includes name ''errors'') \<longrightarrow>
        parse_line line m r =
          (Inr (m\<lparr>gauges := samples_set (gauges m) name \<lparr>val = Number value, labels = lbls\<rparr>\<rparr>), r))
     \<and> (name \<noteq> ''__proto__'' \<longrightarrow>
          map_of (props (samples_set obj name s)) name = Some s
          \<and> (\<forall>k. k \<noteq> name \<longrightarrow> map_of (props (samples_set obj name s)) k = map_of (props obj) k))
     \<and> parsePrometheusMetrics ''requests_total 1'' r =
          (Inr (empty_metrics\<lparr>counters :=
             \<lparr>props = [(''requests_total'', \<lparr>val = Fin 1, labels = []\<rparr>)], proto = None\<rparr>\<rparr>), r)
     \<and> parsePrometheusMetrics ''request_errors 1'' r =
          (Inr (empty_metrics\<lparr>counters :=
             \<lparr>props = [(''request_errors'', \<lparr>val = Fin 1, labels = []\<rparr>)], proto = None\<rparr>\<rparr>), r)
     \<and> parsePrometheusMetrics ''ha_connections 2'' r =
          (Inr (empty_metrics\<lparr>gauges :=
             \<lparr>props = [(''ha_connections'', \<lparr>val = Fin 2, labels = []\<rparr>)], proto = None\<rparr>\<rparr>), r)"
proof (intro conjI impI allI)
  assume "str_includes name ''total'' \<or> str_includes name ''errors''"
  with assms show "parse_line line m r =
      (Inr (m\<lparr>counters := samples_set (counters m) name \<lparr>val = Number value, labels = lbls\<rparr>\<rparr>), r)"
    by (simp add: parse_line_def process_sample_def)
next
  assume "\<not> (str_includes name ''total'' \<or> str_includes name ''errors'')"
  with assms show "parse_line line m r =
      (Inr (m\<lparr>gauges := samples_set (gauges m) name \<lparr>val = Number value, labels = lbls\<rparr>\<rparr>), r)"
    by (simp add: parse_line_def process_sample_def)
next
  assume "name \<noteq> ''__proto__''"
  then show "map_of (props (samples_set obj name s)) name = Some s"
    by (simp add: samples_set_def update_conv')
next
  fix k assume "name \<noteq> ''__proto__''" "k \<noteq> name"
  then show "map_of (props (samples_set obj name s)) k = map_of (props obj) k"
    by (simp add: samples_set_def update_conv')
next
  show "parsePrometheusMetrics ''requests_total 1'' r =
          (Inr (empty_metrics\<lparr>counters :=
             \<lparr>props = [(''requests_total'', \<lparr>val = Fin 1, labels = []\<rparr>)], proto = None\<rparr>\<rparr>), r)"
    by (simp add: parse_eval fields_requests_total Number_1)
next
  show "parsePrometheusMetrics ''request_errors 1'' r =
          (Inr (empty_metrics\<lparr>counters :=
             \<lparr>props = [(''request_errors'', \<lparr>val = Fin 1, labels = []\<rparr>)], proto = None\<rparr>\<rparr>), r)"
    by (simp add: parse_eval fields_request_errors Number_1)
next
  show "parsePrometheusMetrics ''ha_connections 2'' r =
          (Inr (empty_metrics\<lparr>gauges :=
             \<lparr>props = [(''ha_connections'', \<lparr>val = Fin 2, labels = []\<rparr>)], proto = None\<rparr>\<rparr>), r)"
    by (simp add: parse_eval fields_ha_connections Number_2)
qed

text \<open>
  A later \<open>requests_total\<close> line overwrites the stored counter, and
  \<open>ha_connections\<close> goes to the gauges.
\<close>

theorem sample_line_dispatch_witness:
  "parse_line ''requests_total 1''
     (empty_metrics\<lparr>counters := \<lparr>props = [(''requests_total'', \<lparr>val = Fin 9, labels = []\<rparr>)], proto = None\<rparr>\<rparr>)
     pristine
   = (Inr (empty_metrics\<lparr>counters :=
        \<lparr>props = [(''requests_total'', \<lparr>val = Fin 1, labels = []\<rparr>)], proto = None\<rparr>\<rparr>), pristine)
   \<and> parse_line ''ha_connections 2'' empty_metrics pristine
   = (Inr (empty_metrics\<lparr>gauges :=
        \<lparr>props = [(''ha_connections'', \<lparr>val = Fin 2, labels = []\<rparr>)], proto = None\<rparr>\<rparr>), pristine)"
proof -
  have a: "\<not> str_includes ''requests_total'' ''_bucket''" "\<not> str_includes ''requests_total'' ''_sum''"
      "\<not> str_includes ''requests_total'' ''_count''" "str_includes ''requests_total'' ''total''"
    by code_simp+
  have b: "\<not> str_includes ''ha_connections'' ''_bucket''" "\<not> str_includes ''ha_connections'' ''_sum''"
      "\<not> str_includes ''ha_connections'' ''_count''" "\<not> str_includes ''ha_connections'' ''total''"
      "\<not> str_includes ''ha_connections'' ''errors''"
    by code_simp+
  show ?thesis
    using sample_line_dispatch [OF fields_requests_total a(1,2,3),
        of "empty_metrics\<lparr>counters := \<lparr>props = [(''requests_total'', \<lparr>val = Fin 9, labels = []\<rparr>)], proto = None\<rparr>\<rparr>"
           pristine]
      sample_line_dispatch [OF fields_ha_connections b(1,2,3), of empty_metrics pristine]
    by (simp add: a b samples_set_def empty_metrics_def Number_1 Number_2)
qed

text \<open>
  C2 as stated fails: \<open>http_count_total\<close> ends with none of the three suffixes and
  contains \<open>total\<close>, yet it is not stored as a counter: its name contains
  \<open>_count\<close>, so the line sets the \<open>count\<close> field of a histogram.
\<close>

theorem sample_dispatch_counterexample:
  "\<not> suffix ''_bucket'' ''http_count_total'' \<and> \<not> suffix ''_sum'' ''http_count_total''
   \<and> \<not> suffix ''_count'' ''http_count_total'' \<and> str_includes ''http_count_total'' ''total''
   \<and> parsePrometheusMetrics ''http_count_total 1'' pristine =
       (Inr (empty_metrics\<lparr>histograms :=
          [(''http_count_total'', \<lparr>buckets = [], hsum = None, hcount = Some (Fin 1)\<rparr>)]\<rparr>), pristine)"
proof -
  have s: "\<not> suffix ''_bucket'' ''http_count_total''" "\<not> suffix ''_sum'' ''http_count_total''"
      "\<not> suffix ''_count'' ''http_count_total''" "str_includes ''http_count_total'' ''total''"
    by code_simp+
  have p: "parsePrometheusMetrics ''http_count_total 1'' pristine =
       (Inr (empty_metrics\<lparr>histograms :=
          [(''http_count_total'', \<lparr>buckets = [], hsum = None, hcount = Some (Fin 1)\<rparr>)]\<rparr>), pristine)"
    by (simp add: parse_eval fields_http_count_total Number_1 pristine_def)
  from s p show ?thesis by blast
qed


section \<open>The keys of the three mappings\<close>

lemma keys_update: "keys (AList.update k v al) = insert k (keys al)"
  by (simp add: keys_def dom_update)

lemma keys_samples_set:
  "keys (props (samples_set obj k v)) = (if k = ''__proto__'' then keys (props obj) else insert k (keys (props obj)))"
  by (simp add: samples_set_def keys_update)

lemma process_sample_classified:
  assumes "process_sample name lbls value m r = (Inr m', r')" and "keys_classified m"
  shows "keys_classified m'"
proof (cases "histogram_marked name")
  case True
  with assms(1) have "gauges m' = gauges m \<and> counters m' = counters m"
    by (auto simp: process_sample_def histogram_marked_def Let_def
        split: if_splits sum.splits prod.splits)
  with assms(2) show ?thesis by (simp add: keys_classified_def)
next
  case False
  then have n: "\<not> str_includes name ''_bucket''" "\<not> str_includes name ''_sum''"
      "\<not> str_includes name ''_count''"
    by (simp_all add: histogram_marked_def)
  show ?thesis
  proof (cases "counter_named name")
    case True
    with n assms(1) have "m' = m\<lparr>counters := samples_set (counters m) name \<lparr>val = Number value, labels = lbls\<rparr>\<rparr>"
      by (auto simp: process_sample_def counter_named_def)
    with assms(2) True False show ?thesis
      by (auto simp: keys_classified_def keys_samples_set split: if_splits)
  next
    case c: False
    with n assms(1) have "m' = m\<lparr>gauges := samples_set (gauges m) name \<lparr>val = Number value, labels = lbls\<rparr>\<rparr>"
      by (auto simp: process_sample_def counter_named_def)
    with assms(2) c False show ?thesis
      by (auto simp: keys_classified_def keys_samples_set split: if_splits)
  qed
qed

lemma parse_line_classified:
  assumes "parse_line line m r = (Inr m', r')" and "keys_classified m"
  shows "keys_classified m'"
proof (cases "line_fields line")
  case None
  with assms show ?thesis by (simp add: parse_line_def)
next
  case (Some f)
  obtain name lbls v where "f = (name, lbls, v)" by (cases f)
  with Some assms(1) have "process_sample name lbls v m r = (Inr m', r')"
    by (simp add: parse_line_def)
  from this assms(2) show ?thesis by (rule process_sample_classified)
qed

lemma parse_lines_classified:
  "parse_lines ls m r = (Inr m', r') \<Longrightarrow> keys_classified m \<Longrightarrow> keys_classified m'"
proof (induction ls arbitrary: m r)
  case Nil
  then show ?case by simp
next
  case (Cons l ls)
  obtain res r1 where l: "parse_line l m r = (res, r1)" by (cases "parse_line l m r")
  show ?case
  proof (cases res)
    case (Inl e)
    with l Cons.prems(1) show ?thesis by simp
  next
    case (Inr m1)
    with l Cons.prems(2) have "keys_classified m1"
      using parse_line_classified by blast
    moreover from l Inr Cons.prems(1) have "parse_lines ls m1 r1 = (Inr m', r')" by simp
    ultimately show ?thesis by (rule Cons.IH [rotated])
  qed
qed

lemma empty_metrics_classified: "keys_classified empty_metrics"
  by (simp add: keys_classified_def empty_metrics_def keys_def)

text \<open>
  C3, as the code has it. In every result of the parser no name is a key of both
  \<open>gauges\<close> and \<open>counters\<close>: every key of \<open>counters\<close> contains \<open>total\<close> or
  \<open>errors\<close>, no key of \<open>gauges\<close> does, and no key of either contains
  \<open>_bucket\<close>, \<open>_sum\<close> or \<open>_count\<close>. (A histogram base name may also be a key of
  \<open>gauges\<close> or \<open>counters\<close>.)
\<close>

theorem gauges_counters_disjoint:
  assumes "parsePrometheusMetrics text r = (Inr m, r')"
  shows "keys (props (gauges m)) \<inter> keys (props (counters m)) = {}
         \<and> (\<forall>k \<in> keys (props (counters m)). counter_named k \<and> \<not> histogram_marked k)
         \<and> (\<forall>k \<in> keys (props (gauges m)). \<not> counter_named k \<and> \<not> histogram_marked k)"
proof -
  from assms have "keys_classified m"
    unfolding parsePrometheusMetrics_def
    using parse_lines_classified empty_metrics_classified by blast
  then show ?thesis
    by (auto simp: keys_classified_def)
qed

lemma parse_counter_and_gauge:
  "parsePrometheusMetrics ''requests_total 1\<newline>ha_connections 2'' pristine =
     (Inr \<lparr>gauges = \<lparr>props = [(''ha_connections'', \<lparr>val = Fin 2, labels = []\<rparr>)], proto = None\<rparr>,
           counters = \<lparr>props = [(''requests_total'', \<lparr>val = Fin 1, labels = []\<rparr>)], proto = None\<rparr>,
           histograms = []\<rparr>,
      pristine)"
  by (simp add: parse_eval fields_requests_total fields_ha_connections Number_1 Number_2 pristine_def)

text \<open>
  The parse of one counter line and one gauge line.
\<close>

theorem gauges_counters_disjoint_witness:
  "parsePrometheusMetrics ''requests_total 1\<newline>ha_connections 2'' pristine =
     (Inr \<lparr>gauges = \<lparr>props = [(''ha_connections'', \<lparr>val = Fin 2, labels = []\<rparr>)], proto = None\<rparr>,
           counters = \<lparr>props = [(''requests_total'', \<lparr>val = Fin 1, labels = []\<rparr>)], proto = None\<rparr>,
           histograms = []\<rparr>,
      pristine)
   \<and> counter_named ''requests_total'' \<and> \<not> histogram_marked ''requests_total''
   \<and> \<not> counter_named ''ha_connections'' \<and> \<not> histogram_marked ''ha_connections''"
  using gauges_counters_disjoint [OF parse_counter_and_gauge] parse_counter_and_gauge
  by (simp add: keys_def)


lemma parse_foo_bucket_foo:
  "parsePrometheusMetrics ''foo_bucket 1\<newline>foo 2'' pristine =
     (Inr \<lparr>gauges = \<lparr>props = [(''foo'', \<lparr>val = Fin 2, labels = []\<rparr>)], proto = None\<rparr>,
           counters = \<lparr>props = [], proto = None\<rparr>,
           histograms = [(''foo'', \<lparr>buckets = [\<lparr>le = None, count = Fin 1\<rparr>], hsum = None, hcount = None\<rparr>)]\<rparr>,
      pristine)"
  by (simp add: parse_eval fields_foo_bucket_1 fields_foo_2 Number_1 Number_2 pristine_def)

text \<open>
  C3 as stated fails: after \<open>foo_bucket 1\<close> and \<open>foo 2\<close> the name \<open>foo\<close> is a
  key of \<open>histograms\<close> and of \<open>gauges\<close>.
\<close>

theorem mappings_overlap_counterexample:
  "parsePrometheusMetrics ''foo_bucket 1\<newline>foo 2'' pristine =
     (Inr \<lparr>gauges = \<lparr>props = [(''foo'', \<lparr>val = Fin 2, labels = []\<rparr>)], proto = None\<rparr>,
           counters = \<lparr>props = [], proto = None\<rparr>,
           histograms = [(''foo'', \<lparr>buckets = [\<lparr>le = None, count = Fin 1\<rparr>], hsum = None, hcount = None\<rparr>)]\<rparr>,
      pristine)
   \<and> ''foo'' \<in> keys [(''foo'', \<lparr>val = Fin 2, labels = []\<rparr>)]
   \<and> ''foo'' \<in> keys [(''foo'', \<lparr>buckets = [\<lparr>le = None, count = Fin 1\<rparr>], hsum = None, hcount = None\<rparr>)]"
  using parse_foo_bucket_foo by (simp add: keys_def)

section \<open>Histogram lines in any order\<close>

text \<open>
  C8. The three lines \<open>foo_bucket{le="0.5"} 3\<close>, \<open>foo_sum 10\<close> and
  \<open>foo_count 4\<close>, in each of their six orders, parse to the single histogram entry
  \<open>foo\<close> with \<open>buckets = [{le: "0.5", count: 3}]\<close>, \<open>sum = 10\<close> and
  \<open>count = 4\<close>.
\<close>

theorem histogram_lines_any_order:
  "parsePrometheusMetrics ''foo_bucket{le=\"0.5\"} 3\<newline>foo_sum 10\<newline>foo_count 4'' r =
     (Inr (empty_metrics\<lparr>histograms :=
        [(''foo'', \<lparr>buckets = [\<lparr>le = Some ''0.5'', count = Fin 3\<rparr>],
                    hsum = Some (Fin 10), hcount = Some (Fin 4)\<rparr>)]\<rparr>), r)
   \<and> parsePrometheusMetrics ''foo_bucket{le=\"0.5\"} 3\<newline>foo_count 4\<newline>foo_sum 10'' r =
     (Inr (empty_metrics\<lparr>histograms :=
        [(''foo'', \<lparr>buckets = [\<lparr>le = Some ''0.5'', count = Fin 3\<rparr>],
                    hsum = Some (Fin 10), hcount = Some (Fin 4)\<rparr>)]\<rparr>), r)
   \<and> parsePrometheusMetrics ''foo_sum 10\<newline>foo_bucket{le=\"0.5\"} 3\<newline>foo_count 4'' r =
     (Inr (empty_metrics\<lparr>histograms :=
        [(''foo'', \<lparr>buckets = [\<lparr>le = Some ''0.5'', count = Fin 3\<rparr>],
                    hsum = Some (Fin 10), hcount = Some (Fin 4)\<rparr>)]\<rparr>), r)
   \<and> parsePrometheusMetrics ''foo_sum 10\<newline>foo_count 4\<newline>foo_bucket{le=\"0.5\"} 3'' r =
     (Inr (empty_metrics\<lparr>histograms :=
        [(''foo'', \<lparr>buckets = [\<lparr>le = Some ''0.5'', count = Fin 3\<rparr>],
                    hsum = Some (Fin 10), hcount = Some (Fin 4)\<rparr>)]\<rparr>), r)
   \<and> parsePrometheusMetrics ''foo_count 4\<newline>foo_bucket{le=\"0.5\"} 3\<newline>foo_sum 10'' r =
     (Inr (empty_metrics\<lparr>histograms :=
        [(''foo'', \<lparr>buckets = [\<lparr>le = Some ''0.5'', count = Fin 3\<rparr>],
                    hsum = Some (Fin 10), hcount = Some (Fin 4)\<rparr>)]\<rparr>), r)
   \<and> parsePrometheusMetrics ''foo_count 4\<newline>foo_sum 10\<newline>foo_bucket{le=\"0.5\"} 3'' r =
     (Inr (empty_metrics\<lparr>histograms :=
        [(''foo'', \<lparr>buckets = [\<lparr>le = Some ''0.5'', count = Fin 3\<rparr>],
                    hsum = Some (Fin 10), hcount = Some (Fin 4)\<rparr>)]\<rparr>), r)"
  by (simp add: parse_eval fields_foo_bucket fields_foo_sum fields_foo_count
      Number_3 Number_4 Number_10)

text \<open>
  The last of the six orders, in a pristine realm.
\<close>

theorem histogram_lines_any_order_witness:
  "parsePrometheusMetrics ''foo_count 4\<newline>foo_sum 10\<newline>foo_bucket{le=\"0.5\"} 3'' pristine =
     (Inr \<lparr>gauges = \<lparr>props = [], proto = None\<rparr>, counters = \<lparr>props = [], proto = None\<rparr>,
           histograms =
             [(''foo'', \<lparr>buckets = [\<lparr>le = Some ''0.5'', count = Fin 3\<rparr>],
                         hsum = Some (Fin 10), hcount = Some (Fin 4)\<rparr>)]\<rparr>, pristine)"
  using histogram_lines_any_order [of pristine] by (simp add: empty_metrics_def)

section \<open>What the validator accepts\<close>

lemma not_ident_start_space: "\<not> ident_start CHR '' ''"
  by (simp add: ident_start_def in_range_def)

lemma spec_metric_line_first: "spec_metric_line s \<Longrightarrow> s \<noteq> [] \<and> ident_start (hd s)"
  by (auto simp: spec_metric_line_def spec_identifier_def)

text \<open>
  C6, as the code has it. The validator returns true exactly when some line of the
  trimmed input starts with \<open>#\<close> or, trimmed itself, is an identifier
  \<open>[a-zA-Z_:][a-zA-Z0-9_:]*\<close>, optionally followed by a label block in braces (with
  no line terminator inside), then white space, then a decimal or scientific-notation
  number. It is a total function, so it never throws. It is false on the empty string,
  true on \<open># HELP x\<close> followed by \<open>foo 1\<close>, false on \<open>garbage\<close> with a newline.
\<close>

theorem isValid_characterisation:
  "(isValidPrometheusMetrics text \<longleftrightarrow>
      (\<exists>line \<in> set (split_on CHR 0x0A (trim text)).
          startsWith line ''#'' \<or> spec_metric_line (trim line)))
   \<and> \<not> isValidPrometheusMetrics ''''
   \<and> isValidPrometheusMetrics ''# HELP x\<newline>foo 1''
   \<and> \<not> isValidPrometheusMetrics ''garbage\<newline>''"
proof (intro conjI)
  show "isValidPrometheusMetrics text \<longleftrightarrow>
      (\<exists>line \<in> set (split_on CHR 0x0A (trim text)).
          startsWith line ''#'' \<or> spec_metric_line (trim line))"
    by (simp add: isValidPrometheusMetrics_def list_ex_iff regex_test_metric_line)
  show "\<not> isValidPrometheusMetrics ''''" by code_simp
  show "isValidPrometheusMetrics ''# HELP x\<newline>foo 1''" by code_simp
  show "\<not> isValidPrometheusMetrics ''garbage\<newline>''" by code_simp
qed

text \<open>
  The input \<open>"up 1 "\<close>: valid, and its one trimmed line matches the pattern.
\<close>

theorem isValid_characterisation_witness:
  "isValidPrometheusMetrics ''up 1 '' \<and> split_on CHR 0x0A (trim ''up 1 '') = [''up 1'']
   \<and> \<not> startsWith ''up 1'' ''#'' \<and> spec_metric_line ''up 1''"
proof -
  have v: "isValidPrometheusMetrics ''up 1 ''" by code_simp
  have l: "split_on CHR 0x0A (trim ''up 1 '') = [''up 1'']" by code_simp
  have t: "trim ''up 1'' = ''up 1''" by code_simp
  have h: "\<not> startsWith ''up 1'' ''#''" by code_simp
  from v l t h isValid_characterisation [of "''up 1 ''"] show ?thesis by simp
qed

text \<open>
  C6 as stated fails: the only line of \<open>" up 1"\<close> neither starts with \<open>#\<close> nor
  matches the pattern (it starts with a space), and the validator returns true.
\<close>

theorem isValid_untrimmed_counterexample:
  "isValidPrometheusMetrics '' up 1'' \<and> \<not> spec_isValid '' up 1''"
proof
  show "isValidPrometheusMetrics '' up 1''" by code_simp
  have l: "split_on CHR 0x0A '' up 1'' = ['' up 1'']" by code_simp
  have h: "\<not> startsWith '' up 1'' ''#''" by code_simp
  have "\<not> spec_metric_line '' up 1''"
    using spec_metric_line_first [of "'' up 1''"] not_ident_start_space by auto
  with l h show "\<not> spec_isValid '' up 1''" by (simp add: spec_isValid_def)
qed

section \<open>Retention\<close>



text \<open>The keys in descending order, when there are at least two.\<close>

lemma descending_keys:
  assumes "distinct (map fst st)" and "2 \<le> length st"
  obtains k1 k2 rest where "rev (sort (map fst st)) = k1 # k2 # rest"
    and "k2 < k1" and "\<forall>k \<in> set rest. k < k2"
    and "keys st = insert k1 (insert k2 (set rest))"
proof -
  let ?ks = "rev (sort (map fst st))"
  from assms(2) have "2 \<le> length ?ks" by simp
  then obtain k1 k2 rest where ks: "?ks = k1 # k2 # rest"
    by (cases ?ks; cases "tl ?ks") auto
  have d: "distinct ?ks" using assms(1) by simp
  have "sorted_wrt (\<lambda>a b. b \<le> a) ?ks"
    by (simp add: sorted_wrt_rev)
  with ks have le: "k2 \<le> k1" "\<forall>k \<in> set rest. k \<le> k2" by auto
  from d ks have ne: "k1 \<noteq> k2" "\<forall>k \<in> set rest. k \<noteq> k2" by auto
  have "set ?ks = keys st" by (simp add: keys_def)
  with ks have "keys st = insert k1 (insert k2 (set rest))" by auto
  moreover from le ne have "k2 < k1" "\<forall>k \<in> set rest. k < k2"
    by (auto simp: less_le)
  ultimately show thesis using ks that by blast
qed

lemma save_ops_few:
  "length st < 2 \<Longrightarrow> save_ops st ts text = [Put (snapshot_key ts) \<lparr>data = text, timestamp = ts\<rparr>]"
  by (simp add: save_ops_def)

lemma save_ops_many:
  assumes "rev (sort (map fst st)) = k1 # k2 # rest"
  shows "save_ops st ts text = [Delete k2, Put (snapshot_key ts) \<lparr>data = text, timestamp = ts\<rparr>]"
proof -
  have "length (rev (sort (map fst st))) = length (k1 # k2 # rest)" using assms by simp
  then have "2 \<le> length st" by simp
  with assms show ?thesis by (simp add: save_ops_def)
qed

lemma metrics_10_before_9: "''metrics_10'' < ''metrics_9''"
  by code_simp

lemma sort_9_10: "rev (sort [''metrics_9'', ''metrics_10'']) = [''metrics_9'', ''metrics_10'']"
  by code_simp

text \<open>
  C5. For a store with one entry per key, \<open>save\<close> sorts the keys in descending order
  of their strings. With fewer than two keys it only inserts the new snapshot under
  \<open>metrics_<timestamp>\<close>. With two or more it deletes the second key of that order,
  the greatest but one, and then inserts. The order is that of strings, not of numbers:
  \<open>metrics_10\<close> sorts below \<open>metrics_9\<close>, so with these two keys stored it is
  \<open>metrics_10\<close> that is deleted.
\<close>

theorem save_deletes_second_in_descending_order:
  assumes "distinct (map fst st)"
  shows
    "(length st < 2 \<longrightarrow>
        save_ops st ts text = [Put (snapshot_key ts) \<lparr>data = text, timestamp = ts\<rparr>]
        \<and> map_of (save st ts text) = (map_of st)(snapshot_key ts \<mapsto> \<lparr>data = text, timestamp = ts\<rparr>))
     \<and> (2 \<le> length st \<longrightarrow>
        (\<exists>k1 k2 rest.
            rev (sort (map fst st)) = k1 # k2 # rest
            \<and> keys st = insert k1 (insert k2 (set rest))
            \<and> k2 < k1 \<and> (\<forall>k \<in> set rest. k < k2)
            \<and> save_ops st ts text =
                 [Delete k2, Put (snapshot_key ts) \<lparr>data = text, timestamp = ts\<rparr>]
            \<and> map_of (save st ts text) =
                 ((map_of st)(k2 := None))(snapshot_key ts \<mapsto> \<lparr>data = text, timestamp = ts\<rparr>)))
     \<and> ''metrics_10'' < ''metrics_9''
     \<and> save_ops [(''metrics_9'', e9), (''metrics_10'', e10)] ts text =
          [Delete ''metrics_10'', Put (snapshot_key ts) \<lparr>data = text, timestamp = ts\<rparr>]"
proof (intro conjI impI)
  assume "length st < 2"
  then show "save_ops st ts text = [Put (snapshot_key ts) \<lparr>data = text, timestamp = ts\<rparr>]"
    by (rule save_ops_few)
  then show "map_of (save st ts text) = (map_of st)(snapshot_key ts \<mapsto> \<lparr>data = text, timestamp = ts\<rparr>)"
    by (simp add: save_def run_ops_def update_conv')
next
  assume "2 \<le> length st"
  with assms obtain k1 k2 rest where ks: "rev (sort (map fst st)) = k1 # k2 # rest"
    and lt: "k2 < k1" "\<forall>k \<in> set rest. k < k2"
    and keys: "keys st = insert k1 (insert k2 (set rest))"
    by (rule descending_keys)
  from ks have ops: "save_ops st ts text =
      [Delete k2, Put (snapshot_key ts) \<lparr>data = text, timestamp = ts\<rparr>]"
    by (rule save_ops_many)
  then have "map_of (save st ts text) =
      ((map_of st)(k2 := None))(snapshot_key ts \<mapsto> \<lparr>data = text, timestamp = ts\<rparr>)"
    by (simp add: save_def run_ops_def update_conv' delete_conv')
  with ks lt keys ops show "\<exists>k1 k2 rest.
            rev (sort (map fst st)) = k1 # k2 # rest
            \<and> keys st = insert k1 (insert k2 (set rest))
            \<and> k2 < k1 \<and> (\<forall>k \<in> set rest. k < k2)
            \<and> save_ops st ts text =
                 [Delete k2, Put (snapshot_key ts) \<lparr>data = text, timestamp = ts\<rparr>]
            \<and> map_of (save st ts text) =
                 ((map_of st)(k2 := None))(snapshot_key ts \<mapsto> \<lparr>data = text, timestamp = ts\<rparr>)"
    by blast
next
  show "''metrics_10'' < ''metrics_9''" by (rule metrics_10_before_9)
next
  have "rev (sort (map fst [(''metrics_9'', e9), (''metrics_10'', e10)])) = [''metrics_9'', ''metrics_10'']"
    using sort_9_10 by simp
  then show "save_ops [(''metrics_9'', e9), (''metrics_10'', e10)] ts text =
          [Delete ''metrics_10'', Put (snapshot_key ts) \<lparr>data = text, timestamp = ts\<rparr>]"
    by (rule save_ops_many)
qed

text \<open>
  With the keys \<open>metrics_8\<close>, \<open>metrics_9\<close> and \<open>metrics_10\<close> stored the
  descending order is 9, 8, 10 and \<open>metrics_8\<close> is deleted; a save on the empty store
  only inserts.
\<close>

theorem save_deletes_second_in_descending_order_witness:
  "distinct (map fst [(''metrics_8'', \<lparr>data = ''a'', timestamp = 8\<rparr>),
                      (''metrics_9'', \<lparr>data = ''b'', timestamp = 9\<rparr>),
                      (''metrics_10'', \<lparr>data = ''c'', timestamp = 10\<rparr>)])
   \<and> save_ops [(''metrics_8'', \<lparr>data = ''a'', timestamp = 8\<rparr>),
                (''metrics_9'', \<lparr>data = ''b'', timestamp = 9\<rparr>),
                (''metrics_10'', \<lparr>data = ''c'', timestamp = 10\<rparr>)] 11 ''d''
       = [Delete ''metrics_8'', Put ''metrics_11'' \<lparr>data = ''d'', timestamp = 11\<rparr>]
   \<and> map_of (save [] 5 ''x'') = [''metrics_5'' \<mapsto> \<lparr>data = ''x'', timestamp = 5\<rparr>]"
proof -
  let ?st = "[(''metrics_8'', \<lparr>data = ''a'', timestamp = 8\<rparr>),
              (''metrics_9'', \<lparr>data = ''b'', timestamp = 9\<rparr>),
              (''metrics_10'', \<lparr>data = ''c'', timestamp = 10\<rparr>)]"
  have d: "distinct (map fst ?st)" by simp
  have s: "rev (sort (map fst ?st)) = [''metrics_9'', ''metrics_8'', ''metrics_10'']"
    by code_simp
  have k: "snapshot_key 11 = ''metrics_11''" "snapshot_key 5 = ''metrics_5''" by code_simp+
  from save_deletes_second_in_descending_order [OF d, of 11 "''d''"] s k(1)
  have a: "save_ops ?st 11 ''d'' = [Delete ''metrics_8'', Put ''metrics_11'' \<lparr>data = ''d'', timestamp = 11\<rparr>]"
    by simp
  have "distinct (map fst ([] :: store))" by simp
  from save_deletes_second_in_descending_order [OF this, of 5 "''x''"] k(2)
  have b: "map_of (save [] 5 ''x'') = [''metrics_5'' \<mapsto> \<lparr>data = ''x'', timestamp = 5\<rparr>]"
    by simp
  from d a b show ?thesis by blast
qed










end
